theory Spec2Isabelle
  imports Main "HOL-Library.Word"
begin

section \<open>The BiometricRegistry contract (contracts/BiometricRegistry.sol)\<close>

text \<open>
  The contract is embedded as functions on an explicit storage record. Every external
  function takes the transaction context the source reads (\<open>msg.sender\<close> and
  \<open>block.timestamp\<close>) as its first arguments and returns either the error it reverts
  with or its result: the new storage for a transaction, the returned values for a view.
  A Solidity \<open>mapping\<close> is a total function whose value at an unwritten key is the zero
  value of the value type. Solidity 0.8 arithmetic is checked: \<open>++\<close> on a \<open>uint256\<close>
  that holds the largest value reverts with panic code 0x11.
\<close>

subsection \<open>Value types\<close>

type_synonym address = "160 word"
type_synonym bytes32 = "256 word"
type_synonym uint256 = "256 word"
type_synonym bytes = "8 word list"

datatype BiometricType = FACIAL | FINGERPRINT | IRIS | MULTIMODAL

record Subject =
  subjectId :: bytes32
  commitmentHash :: bytes32
  delta :: bytes
  templateCID :: string
  biometricType :: BiometricType
  enrolledBy :: address
  enrolledAt :: uint256
  updatedAt :: uint256
  isActive :: bool

record Node =
  nodeId :: uint256
  name :: string
  nodeAddress :: address
  isEnrollmentCenter :: bool
  isAuthorized :: bool
  registeredAt :: uint256
  enrollmentCount :: uint256

text \<open>The field \<open>subjectId\<close> of the struct AuthRecord is \<open>rec_subjectId\<close> here, since a
  record field is a constant and Subject already has one of that name.\<close>

record AuthRecord =
  rec_subjectId :: bytes32
  verifier :: address
  success :: bool
  reason :: string
  timestamp :: uint256

text \<open>The zero values that an unwritten mapping slot holds and that \<open>delete\<close> restores.\<close>

definition zero_Subject :: Subject where
  "zero_Subject = \<lparr>subjectId = 0, commitmentHash = 0, delta = [], templateCID = [],
     biometricType = FACIAL, enrolledBy = 0, enrolledAt = 0, updatedAt = 0, isActive = False\<rparr>"

definition zero_Node :: Node where
  "zero_Node = \<lparr>nodeId = 0, name = [], nodeAddress = 0, isEnrollmentCenter = False,
     isAuthorized = False, registeredAt = 0, enrollmentCount = 0\<rparr>"

definition zero_AuthRecord :: AuthRecord where
  "zero_AuthRecord = \<lparr>rec_subjectId = 0, verifier = 0, success = False, reason = [],
     timestamp = 0\<rparr>"

subsection \<open>Events and errors\<close>

datatype event =
    SubjectEnrolled bytes32 address BiometricType uint256
  | SubjectUpdated bytes32 address uint256
  | SubjectDeactivated bytes32 address uint256
  | SubjectReactivated bytes32 address uint256
  | NodeRegistered uint256 address string bool uint256
  | NodeStatusChanged address bool uint256
  | AuthenticationLogged bytes32 address bool uint256
  | OwnershipTransferred address address

text \<open>A failed \<open>require\<close> reverts with its message; a checked-arithmetic overflow reverts
  with a panic code.\<close>

datatype error = Revert string | Panic nat

abbreviation NOT_OWNER :: error where
  "NOT_OWNER \<equiv> Revert ''BiometricRegistry: caller is not owner''"
abbreviation NOT_AUTHORIZED_NODE :: error where
  "NOT_AUTHORIZED_NODE \<equiv> Revert ''BiometricRegistry: not authorized node''"
abbreviation NOT_ENROLLMENT_CENTER :: error where
  "NOT_ENROLLMENT_CENTER \<equiv> Revert ''BiometricRegistry: not an enrollment center''"
abbreviation SUBJECT_NOT_FOUND :: error where
  "SUBJECT_NOT_FOUND \<equiv> Revert ''BiometricRegistry: subject not found''"
abbreviation SUBJECT_NOT_ACTIVE :: error where
  "SUBJECT_NOT_ACTIVE \<equiv> Revert ''BiometricRegistry: subject not active''"
abbreviation INVALID_SUBJECT_ID :: error where
  "INVALID_SUBJECT_ID \<equiv> Revert ''BiometricRegistry: invalid subject ID''"
abbreviation INVALID_COMMITMENT_HASH :: error where
  "INVALID_COMMITMENT_HASH \<equiv> Revert ''BiometricRegistry: invalid commitment hash''"
abbreviation SUBJECT_EXISTS :: error where
  "SUBJECT_EXISTS \<equiv> Revert ''BiometricRegistry: subject already exists''"
abbreviation INVALID_ADDRESS :: error where
  "INVALID_ADDRESS \<equiv> Revert ''BiometricRegistry: invalid address''"
abbreviation NODE_EXISTS :: error where
  "NODE_EXISTS \<equiv> Revert ''BiometricRegistry: node exists''"
abbreviation NODE_NOT_FOUND :: error where
  "NODE_NOT_FOUND \<equiv> Revert ''BiometricRegistry: node not found''"
abbreviation CANNOT_MODIFY_OWNER :: error where
  "CANNOT_MODIFY_OWNER \<equiv> Revert ''BiometricRegistry: cannot modify owner''"
abbreviation INVALID_NEW_OWNER :: error where
  "INVALID_NEW_OWNER \<equiv> Revert ''BiometricRegistry: invalid new owner''"

text \<open>\<open>x++\<close> on a \<open>uint256\<close> under checked arithmetic.\<close>

definition checked_inc :: "uint256 \<Rightarrow> error + uint256" where
  "checked_inc x = (if x = - 1 then Inl (Panic 17) else Inr (x + 1))"

subsection \<open>Storage\<close>

text \<open>The state variables of the contract, without their leading underscore, and the
  events emitted so far.\<close>

record state =
  owner :: address
  subjectCount :: uint256
  nodeCount :: uint256
  authRecordCount :: uint256
  subjects :: "bytes32 \<Rightarrow> Subject"
  nodes :: "address \<Rightarrow> Node"
  authRecords :: "uint256 \<Rightarrow> AuthRecord"
  subjectExists :: "bytes32 \<Rightarrow> bool"
  nodeEnrollments :: "address \<Rightarrow> bytes32 list"
  allSubjectIds :: "bytes32 list"
  allNodeAddresses :: "address list"
  emitted :: "event list"

subsection \<open>Modifiers\<close>

definition onlyOwner :: "address \<Rightarrow> state \<Rightarrow> bool" where
  "onlyOwner msg_sender s = (msg_sender = owner s)"

definition onlyAuthorizedNode :: "address \<Rightarrow> state \<Rightarrow> bool" where
  "onlyAuthorizedNode msg_sender s = isAuthorized (nodes s msg_sender)"

definition onlyEnrollmentCenter :: "address \<Rightarrow> state \<Rightarrow> bool" where
  "onlyEnrollmentCenter msg_sender s =
     (isAuthorized (nodes s msg_sender) \<and> isEnrollmentCenter (nodes s msg_sender))"

definition subjectMustExist :: "bytes32 \<Rightarrow> state \<Rightarrow> bool" where
  "subjectMustExist sid s = subjectExists s sid"

definition subjectMustBeActive :: "bytes32 \<Rightarrow> state \<Rightarrow> bool" where
  "subjectMustBeActive sid s = isActive (subjects s sid)"

subsection \<open>Constructor\<close>

definition constructor :: "address \<Rightarrow> uint256 \<Rightarrow> state" where
  "constructor msg_sender block_timestamp =
     \<lparr>owner = msg_sender,
      subjectCount = 0,
      nodeCount = 1,
      authRecordCount = 0,
      subjects = (\<lambda>_. zero_Subject),
      nodes = (\<lambda>_. zero_Node)(msg_sender :=
         \<lparr>nodeId = 1, name = ''Main Enrollment Center'', nodeAddress = msg_sender,
          isEnrollmentCenter = True, isAuthorized = True,
          registeredAt = block_timestamp, enrollmentCount = 0\<rparr>),
      authRecords = (\<lambda>_. zero_AuthRecord),
      subjectExists = (\<lambda>_. False),
      nodeEnrollments = (\<lambda>_. []),
      allSubjectIds = [],
      allNodeAddresses = [msg_sender],
      emitted = [NodeRegistered 1 msg_sender ''Main Enrollment Center'' True block_timestamp]\<rparr>"

subsection \<open>Subject management\<close>

definition enrollSubject ::
    "address \<Rightarrow> uint256 \<Rightarrow> bytes32 \<Rightarrow> bytes32 \<Rightarrow> bytes \<Rightarrow> string \<Rightarrow> BiometricType \<Rightarrow> state
      \<Rightarrow> error + state" where
  "enrollSubject msg_sender block_timestamp sid ch dl cid bt s =
     (if \<not> onlyEnrollmentCenter msg_sender s then Inl NOT_ENROLLMENT_CENTER
      else if sid = 0 then Inl INVALID_SUBJECT_ID
      else if ch = 0 then Inl INVALID_COMMITMENT_HASH
      else if subjectExists s sid then Inl SUBJECT_EXISTS
      else
        let s1 = s\<lparr>subjects := (subjects s)(sid :=
                    \<lparr>subjectId = sid, commitmentHash = ch, delta = dl, templateCID = cid,
                     biometricType = bt, enrolledBy = msg_sender,
                     enrolledAt = block_timestamp, updatedAt = block_timestamp,
                     isActive = True\<rparr>)\<rparr>;
            s2 = s1\<lparr>subjectExists := (subjectExists s1)(sid := True)\<rparr>;
            s3 = s2\<lparr>allSubjectIds := allSubjectIds s2 @ [sid]\<rparr>;
            s4 = s3\<lparr>nodeEnrollments := (nodeEnrollments s3)(msg_sender :=
                    nodeEnrollments s3 msg_sender @ [sid])\<rparr>
        in case checked_inc (enrollmentCount (nodes s4 msg_sender)) of
             Inl e \<Rightarrow> Inl e
           | Inr n \<Rightarrow>
               let s5 = s4\<lparr>nodes := (nodes s4)(msg_sender :=
                           (nodes s4 msg_sender)\<lparr>enrollmentCount := n\<rparr>)\<rparr>
               in case checked_inc (subjectCount s5) of
                    Inl e \<Rightarrow> Inl e
                  | Inr c \<Rightarrow>
                      Inr (s5\<lparr>subjectCount := c,
                              emitted := emitted s5 @
                                [SubjectEnrolled sid msg_sender bt block_timestamp]\<rparr>))"

definition updateSubject ::
    "address \<Rightarrow> uint256 \<Rightarrow> bytes32 \<Rightarrow> bytes32 \<Rightarrow> bytes \<Rightarrow> string \<Rightarrow> state \<Rightarrow> error + state" where
  "updateSubject msg_sender block_timestamp sid ch dl cid s =
     (if \<not> onlyEnrollmentCenter msg_sender s then Inl NOT_ENROLLMENT_CENTER
      else if \<not> subjectMustExist sid s then Inl SUBJECT_NOT_FOUND
      else if \<not> subjectMustBeActive sid s then Inl SUBJECT_NOT_ACTIVE
      else if ch = 0 then Inl INVALID_COMMITMENT_HASH
      else Inr (s\<lparr>subjects := (subjects s)(sid :=
                    (subjects s sid)\<lparr>commitmentHash := ch, delta := dl, templateCID := cid,
                                     updatedAt := block_timestamp\<rparr>),
                  emitted := emitted s @ [SubjectUpdated sid msg_sender block_timestamp]\<rparr>))"

definition deactivateSubject :: "address \<Rightarrow> uint256 \<Rightarrow> bytes32 \<Rightarrow> state \<Rightarrow> error + state" where
  "deactivateSubject msg_sender block_timestamp sid s =
     (if \<not> onlyEnrollmentCenter msg_sender s then Inl NOT_ENROLLMENT_CENTER
      else if \<not> subjectMustExist sid s then Inl SUBJECT_NOT_FOUND
      else Inr (s\<lparr>subjects := (subjects s)(sid :=
                    (subjects s sid)\<lparr>isActive := False, updatedAt := block_timestamp\<rparr>),
                  emitted := emitted s @ [SubjectDeactivated sid msg_sender block_timestamp]\<rparr>))"

definition reactivateSubject :: "address \<Rightarrow> uint256 \<Rightarrow> bytes32 \<Rightarrow> state \<Rightarrow> error + state" where
  "reactivateSubject msg_sender block_timestamp sid s =
     (if \<not> onlyEnrollmentCenter msg_sender s then Inl NOT_ENROLLMENT_CENTER
      else if \<not> subjectMustExist sid s then Inl SUBJECT_NOT_FOUND
      else Inr (s\<lparr>subjects := (subjects s)(sid :=
                    (subjects s sid)\<lparr>isActive := True, updatedAt := block_timestamp\<rparr>),
                  emitted := emitted s @ [SubjectReactivated sid msg_sender block_timestamp]\<rparr>))"

definition getSubject ::
    "address \<Rightarrow> bytes32 \<Rightarrow> state
      \<Rightarrow> error + (bytes32 \<times> bytes32 \<times> bytes \<times> string \<times> BiometricType \<times> uint256)" where
  "getSubject msg_sender sid s =
     (if \<not> onlyAuthorizedNode msg_sender s then Inl NOT_AUTHORIZED_NODE
      else if \<not> subjectMustExist sid s then Inl SUBJECT_NOT_FOUND
      else if \<not> subjectMustBeActive sid s then Inl SUBJECT_NOT_ACTIVE
      else let sb = subjects s sid
           in Inr (subjectId sb, commitmentHash sb, delta sb, templateCID sb,
                   biometricType sb, enrolledAt sb))"

definition checkSubjectStatus :: "bytes32 \<Rightarrow> state \<Rightarrow> bool \<times> bool" where
  "checkSubjectStatus sid s = (subjectExists s sid, isActive (subjects s sid))"

definition verifyCommitment :: "address \<Rightarrow> bytes32 \<Rightarrow> bytes32 \<Rightarrow> state \<Rightarrow> error + bool" where
  "verifyCommitment msg_sender sid providedHash s =
     (if \<not> onlyAuthorizedNode msg_sender s then Inl NOT_AUTHORIZED_NODE
      else if \<not> subjectMustExist sid s then Inl SUBJECT_NOT_FOUND
      else if \<not> subjectMustBeActive sid s then Inl SUBJECT_NOT_ACTIVE
      else Inr (commitmentHash (subjects s sid) = providedHash))"

subsection \<open>Authentication logging\<close>

definition logAuthentication ::
    "address \<Rightarrow> uint256 \<Rightarrow> bytes32 \<Rightarrow> bool \<Rightarrow> string \<Rightarrow> state \<Rightarrow> error + state" where
  "logAuthentication msg_sender block_timestamp sid ok why s =
     (if \<not> onlyAuthorizedNode msg_sender s then Inl NOT_AUTHORIZED_NODE
      else case checked_inc (authRecordCount s) of
             Inl e \<Rightarrow> Inl e
           | Inr c \<Rightarrow>
               let s1 = s\<lparr>authRecordCount := c\<rparr>
               in Inr (s1\<lparr>authRecords := (authRecords s1)(authRecordCount s1 :=
                            \<lparr>rec_subjectId = sid, verifier = msg_sender, success = ok,
                             reason = why, timestamp = block_timestamp\<rparr>),
                          emitted := emitted s1 @
                            [AuthenticationLogged sid msg_sender ok block_timestamp]\<rparr>))"

definition getAuthRecord ::
    "address \<Rightarrow> uint256 \<Rightarrow> state \<Rightarrow> error + (bytes32 \<times> address \<times> bool \<times> string \<times> uint256)" where
  "getAuthRecord msg_sender recordId s =
     (if \<not> onlyAuthorizedNode msg_sender s then Inl NOT_AUTHORIZED_NODE
      else let r = authRecords s recordId
           in Inr (rec_subjectId r, verifier r, success r, reason r, timestamp r))"

subsection \<open>Node management\<close>

definition registerNode ::
    "address \<Rightarrow> uint256 \<Rightarrow> address \<Rightarrow> string \<Rightarrow> bool \<Rightarrow> state \<Rightarrow> error + state" where
  "registerNode msg_sender block_timestamp addr nm ec s =
     (if \<not> onlyEnrollmentCenter msg_sender s then Inl NOT_ENROLLMENT_CENTER
      else if addr = 0 then Inl INVALID_ADDRESS
      else if nodeAddress (nodes s addr) \<noteq> 0 then Inl NODE_EXISTS
      else case checked_inc (nodeCount s) of
             Inl e \<Rightarrow> Inl e
           | Inr c \<Rightarrow>
               let s1 = s\<lparr>nodeCount := c\<rparr>;
                   s2 = s1\<lparr>nodes := (nodes s1)(addr :=
                           \<lparr>nodeId = nodeCount s1, name = nm, nodeAddress = addr,
                            isEnrollmentCenter = ec, isAuthorized = True,
                            registeredAt = block_timestamp, enrollmentCount = 0\<rparr>)\<rparr>
               in Inr (s2\<lparr>allNodeAddresses := allNodeAddresses s2 @ [addr],
                          emitted := emitted s2 @
                            [NodeRegistered (nodeCount s2) addr nm ec block_timestamp]\<rparr>))"

definition setNodeAuthorization ::
    "address \<Rightarrow> uint256 \<Rightarrow> address \<Rightarrow> bool \<Rightarrow> state \<Rightarrow> error + state" where
  "setNodeAuthorization msg_sender block_timestamp addr authorized s =
     (if \<not> onlyEnrollmentCenter msg_sender s then Inl NOT_ENROLLMENT_CENTER
      else if nodeAddress (nodes s addr) = 0 then Inl NODE_NOT_FOUND
      else if addr = owner s then Inl CANNOT_MODIFY_OWNER
      else Inr (s\<lparr>nodes := (nodes s)(addr := (nodes s addr)\<lparr>isAuthorized := authorized\<rparr>),
                  emitted := emitted s @ [NodeStatusChanged addr authorized block_timestamp]\<rparr>))"

definition getNode :: "address \<Rightarrow> state \<Rightarrow> uint256 \<times> string \<times> bool \<times> bool \<times> uint256 \<times> uint256" where
  "getNode addr s =
     (let n = nodes s addr
      in (nodeId n, name n, isEnrollmentCenter n, isAuthorized n, registeredAt n,
          enrollmentCount n))"

subsection \<open>Admin functions\<close>

text \<open>The three storage writes to \<open>_nodes\<close> are kept in the order of the source, each on
  the storage the previous one left.\<close>

definition transferOwnership :: "address \<Rightarrow> address \<Rightarrow> state \<Rightarrow> error + state" where
  "transferOwnership msg_sender newOwner s =
     (if \<not> onlyOwner msg_sender s then Inl NOT_OWNER
      else if newOwner = 0 then Inl INVALID_NEW_OWNER
      else
        let previousOwner = owner s;
            s1 = s\<lparr>owner := newOwner\<rparr>;
            s2 = s1\<lparr>nodes := (nodes s1)(newOwner := nodes s1 previousOwner)\<rparr>;
            s3 = s2\<lparr>nodes := (nodes s2)(newOwner := (nodes s2 newOwner)\<lparr>nodeAddress := newOwner\<rparr>)\<rparr>;
            s4 = s3\<lparr>nodes := (nodes s3)(previousOwner := zero_Node)\<rparr>
        in Inr (s4\<lparr>allNodeAddresses := allNodeAddresses s4 @ [newOwner],
                   emitted := emitted s4 @ [OwnershipTransferred previousOwner newOwner]\<rparr>))"

subsection \<open>View functions\<close>

definition totalSubjects :: "state \<Rightarrow> uint256" where
  "totalSubjects s = subjectCount s"

definition totalNodes :: "state \<Rightarrow> uint256" where
  "totalNodes s = nodeCount s"

definition totalAuthRecords :: "state \<Rightarrow> uint256" where
  "totalAuthRecords s = authRecordCount s"

definition isAuthorizedNode :: "address \<Rightarrow> state \<Rightarrow> bool" where
  "isAuthorizedNode addr s = isAuthorized (nodes s addr)"

definition getNodeEnrollments :: "address \<Rightarrow> address \<Rightarrow> state \<Rightarrow> error + bytes32 list" where
  "getNodeEnrollments msg_sender addr s =
     (if \<not> onlyAuthorizedNode msg_sender s then Inl NOT_AUTHORIZED_NODE
      else Inr (nodeEnrollments s addr))"

subsection \<open>Transactions and sequences of transactions\<close>

text \<open>The state-changing external functions as one type of calls. A transaction is a
  call with its sender and block timestamp; one that reverts leaves the storage as it
  was, which is what \<open>apply_tx\<close> does with an error.\<close>

datatype call =
    EnrollSubject bytes32 bytes32 bytes string BiometricType
  | UpdateSubject bytes32 bytes32 bytes string
  | DeactivateSubject bytes32
  | ReactivateSubject bytes32
  | LogAuthentication bytes32 bool string
  | RegisterNode address string bool
  | SetNodeAuthorization address bool
  | TransferOwnership address

fun exec :: "address \<Rightarrow> uint256 \<Rightarrow> call \<Rightarrow> state \<Rightarrow> error + state" where
  "exec a t (EnrollSubject sid ch dl cid bt) s = enrollSubject a t sid ch dl cid bt s"
| "exec a t (UpdateSubject sid ch dl cid) s = updateSubject a t sid ch dl cid s"
| "exec a t (DeactivateSubject sid) s = deactivateSubject a t sid s"
| "exec a t (ReactivateSubject sid) s = reactivateSubject a t sid s"
| "exec a t (LogAuthentication sid ok why) s = logAuthentication a t sid ok why s"
| "exec a t (RegisterNode addr nm ec) s = registerNode a t addr nm ec s"
| "exec a t (SetNodeAuthorization addr b) s = setNodeAuthorization a t addr b s"
| "exec a t (TransferOwnership newOwner) s = transferOwnership a newOwner s"

type_synonym tx = "address \<times> uint256 \<times> call"

fun apply_tx :: "tx \<Rightarrow> state \<Rightarrow> state" where
  "apply_tx (a, t, c) s = (case exec a t c s of Inl e \<Rightarrow> s | Inr s' \<Rightarrow> s')"

fun run :: "tx list \<Rightarrow> state \<Rightarrow> state" where
  "run [] s = s"
| "run (x # xs) s = run xs (apply_tx x s)"

text \<open>The states the contract can be in: the one its constructor leaves, and every state
  a successful transaction leads to from such a state.\<close>

inductive reachable :: "state \<Rightarrow> bool" where
  init: "reachable (constructor a t)"
| step: "reachable s \<Longrightarrow> exec a t c s = Inr s' \<Longrightarrow> reachable s'"

subsection \<open>The audit log of a sequence of transactions\<close>

text \<open>The audit entries of a sequence of transactions, in order: one for each
  \<open>logAuthentication\<close> call that does not revert, made of the id the call assigns (the
  record counter it finds, plus one) and of the record the call passes: its own subject
  id, sender, outcome, reason and block timestamp. Nothing of an entry is read back from
  the storage the call leaves.\<close>

fun log_entries :: "tx list \<Rightarrow> state \<Rightarrow> (uint256 \<times> AuthRecord) list" where
  "log_entries [] s = []"
| "log_entries ((a, t, LogAuthentication sid ok why) # xs) s =
     (case logAuthentication a t sid ok why s of
        Inl e \<Rightarrow> log_entries xs s
      | Inr s' \<Rightarrow>
          (authRecordCount s + 1,
           \<lparr>rec_subjectId = sid, verifier = a, success = ok, reason = why, timestamp = t\<rparr>)
            # log_entries xs s')"
| "log_entries (x # xs) s = log_entries xs (apply_tx x s)"

subsection \<open>Consistency of the subject ledger\<close>

text \<open>What the counters and the enumeration of subject ids say about the existence
  flags: the zero id is never enrolled, \<open>_allSubjectIds\<close> lists the enrolled ids once
  each, \<open>_subjectCount\<close> is its length, and no node has enrolled more subjects than
  there are.\<close>

definition ledger_inv :: "state \<Rightarrow> bool" where
  "ledger_inv s =
     (\<not> subjectExists s 0
      \<and> set (allSubjectIds s) = {i. subjectExists s i}
      \<and> distinct (allSubjectIds s)
      \<and> unat (subjectCount s) = length (allSubjectIds s)
      \<and> (\<forall>a. unat (enrollmentCount (nodes s a)) \<le> length (allSubjectIds s)))"

subsection \<open>Concrete registries\<close>

text \<open>A registry deployed by address 1 at time 100, in which the owner has enrolled
  subject 7 with commitment hash 9 and registered address 2 as an authentication-only
  node and address 3 as a second enrollment center.\<close>

definition ex_state :: state where
  "ex_state = run [(1, 100, EnrollSubject 7 9 [1, 2] ''Qm'' FACIAL),
                   (1, 101, RegisterNode 2 ''Auth Center'' False),
                   (1, 102, RegisterNode 3 ''Second EC'' True)] (constructor 1 100)"

text \<open>The same registry after node 3 has deactivated subject 7 and the owner has revoked
  the authorization of node 3.\<close>

definition ex_state_off :: state where
  "ex_state_off = run [(3, 103, DeactivateSubject 7),
                       (1, 104, SetNodeAuthorization 3 False)] ex_state"

text \<open>The registry that the constructor leaves, after its owner has transferred the
  ownership to the owner's own address.\<close>

definition ex_self_transfer :: state where
  "ex_self_transfer = apply_tx (1, 101, TransferOwnership 1) (constructor 1 100)"

text \<open>A sequence of transactions on a fresh registry in which the owner and an
  authentication-only node log authentication attempts, between a rejected log call of an
  address without a node record and one of the node after its authorization is revoked.\<close>

definition ex_log_txs :: "tx list" where
  "ex_log_txs =
     [(1, 101, RegisterNode 2 ''Auth Center'' False),
      (2, 102, LogAuthentication 7 True ''ok''),
      (5, 103, LogAuthentication 7 True ''forged''),
      (1, 104, LogAuthentication 8 False ''mismatch''),
      (1, 105, SetNodeAuthorization 2 False),
      (2, 106, LogAuthentication 7 True ''late'')]"

section \<open>Properties\<close>

lemmas registry_defs = enrollSubject_def updateSubject_def deactivateSubject_def
  reactivateSubject_def getSubject_def checkSubjectStatus_def verifyCommitment_def
  logAuthentication_def getAuthRecord_def registerNode_def setNodeAuthorization_def
  transferOwnership_def onlyOwner_def onlyAuthorizedNode_def onlyEnrollmentCenter_def
  subjectMustExist_def subjectMustBeActive_def checked_inc_def constructor_def Let_def
  zero_Node_def zero_Subject_def zero_AuthRecord_def

subsection \<open>verifyCommitment\<close>

text \<open>
  C4. For an authorized caller and an existing subject, \<open>verifyCommitment\<close> on an active
  subject returns whether the provided hash equals the stored commitment hash (so a
  wrong hash gives the value false, not an error), and on an inactive subject it reverts
  with "subject not active".
\<close>

theorem verifyCommitment_correct:
  assumes "onlyAuthorizedNode c s" and "subjectExists s sid"
  shows "(isActive (subjects s sid) \<longrightarrow>
            verifyCommitment c sid h s = Inr (h = commitmentHash (subjects s sid)))
       \<and> (\<not> isActive (subjects s sid) \<longrightarrow> verifyCommitment c sid h s = Inl SUBJECT_NOT_ACTIVE)"
  using assms by (auto simp: verifyCommitment_def subjectMustExist_def subjectMustBeActive_def)

theorem verifyCommitment_correct_witness:
  "verifyCommitment 2 7 9 ex_state = Inr True
   \<and> verifyCommitment 2 7 8 ex_state = Inr False
   \<and> verifyCommitment 2 7 9 ex_state_off = Inl SUBJECT_NOT_ACTIVE"
proof -
  have a: "onlyAuthorizedNode 2 ex_state" "subjectExists ex_state 7"
    "isActive (subjects ex_state 7)" "commitmentHash (subjects ex_state 7) = 9"
    by (simp_all add: ex_state_def registry_defs)
  have b: "onlyAuthorizedNode 2 ex_state_off" "subjectExists ex_state_off 7"
    "\<not> isActive (subjects ex_state_off 7)"
    by (simp_all add: ex_state_off_def ex_state_def registry_defs)
  show ?thesis
    using verifyCommitment_correct [OF a(1,2), of 9] verifyCommitment_correct [OF a(1,2), of 8]
      verifyCommitment_correct [OF b(1,2), of 9] a(3,4) b(3)
    by simp
qed


subsection \<open>Callers that are not authorized\<close>

text \<open>
  C5. A caller whose node record has \<open>isAuthorized = false\<close> (an address without a
  node record reads the zero record, whose flag is false) is rejected by
  \<open>verifyCommitment\<close>, \<open>getSubject\<close> and \<open>logAuthentication\<close> with "not authorized
  node" and by \<open>enrollSubject\<close> with "not an enrollment center"; the rejected
  transactions leave the storage, and so the subject count and the subject ledger, as
  they were.
\<close>

theorem unauthorized_caller_rejected:
  assumes "\<not> isAuthorized (nodes s c)"
  shows "verifyCommitment c sid h s = Inl NOT_AUTHORIZED_NODE
       \<and> getSubject c sid s = Inl NOT_AUTHORIZED_NODE
       \<and> logAuthentication c t sid ok why s = Inl NOT_AUTHORIZED_NODE
       \<and> enrollSubject c t sid ch dl cid bt s = Inl NOT_ENROLLMENT_CENTER
       \<and> apply_tx (c, t, EnrollSubject sid ch dl cid bt) s = s
       \<and> apply_tx (c, t, LogAuthentication sid ok why) s = s
       \<and> totalSubjects (apply_tx (c, t, EnrollSubject sid ch dl cid bt) s) = totalSubjects s
       \<and> subjects (apply_tx (c, t, EnrollSubject sid ch dl cid bt) s) = subjects s
       \<and> subjectExists (apply_tx (c, t, EnrollSubject sid ch dl cid bt) s) = subjectExists s"
  using assms
  by (simp add: verifyCommitment_def getSubject_def logAuthentication_def enrollSubject_def
      onlyAuthorizedNode_def onlyEnrollmentCenter_def)

theorem unauthorized_caller_rejected_witness:
  "\<not> isAuthorized (nodes ex_state_off 3) \<and> nodes ex_state_off 5 = zero_Node
   \<and> verifyCommitment 3 7 9 ex_state_off = Inl NOT_AUTHORIZED_NODE
   \<and> getSubject 3 7 ex_state_off = Inl NOT_AUTHORIZED_NODE
   \<and> logAuthentication 3 200 7 True ''ok'' ex_state_off = Inl NOT_AUTHORIZED_NODE
   \<and> enrollSubject 5 200 8 9 [] ''Qm'' IRIS ex_state_off = Inl NOT_ENROLLMENT_CENTER
   \<and> apply_tx (5, 200, EnrollSubject 8 9 [] ''Qm'' IRIS) ex_state_off = ex_state_off"
proof -
  have a: "\<not> isAuthorized (nodes ex_state_off 3)"
    by (simp add: ex_state_off_def ex_state_def registry_defs)
  have b: "nodes ex_state_off 5 = zero_Node"
    by (simp add: ex_state_off_def ex_state_def registry_defs)
  have c: "\<not> isAuthorized (nodes ex_state_off 5)"
    by (simp add: b) (simp add: zero_Node_def)
  show ?thesis
    using unauthorized_caller_rejected [OF a, where sid = 7 and h = 9 and t = 200 and ok = True
        and why = "''ok''"]
      unauthorized_caller_rejected [OF c, where sid = 8 and t = 200 and ch = 9 and dl = "[]"
        and cid = "''Qm''" and bt = IRIS] a b
    by simp
qed

subsection \<open>Deactivation and reactivation\<close>

text \<open>
  C3. For an existing subject, \<open>deactivateSubject\<close> followed by \<open>reactivateSubject\<close>,
  each called by an authorized enrollment center, both succeed and leave the subject
  active with its commitment hash, delta, template reference, biometric type, enrolling
  node and enrollment time as before; of the storage only \<open>isActive\<close> and
  \<open>updatedAt\<close> of that subject are written, and the two events are emitted.
\<close>

theorem deactivate_reactivate_roundtrip:
  assumes "onlyEnrollmentCenter c1 s" and "onlyEnrollmentCenter c2 s" and "subjectExists s sid"
  shows "\<exists>s1 s2. deactivateSubject c1 t1 sid s = Inr s1
           \<and> reactivateSubject c2 t2 sid s1 = Inr s2
           \<and> isActive (subjects s2 sid)
           \<and> commitmentHash (subjects s2 sid) = commitmentHash (subjects s sid)
           \<and> delta (subjects s2 sid) = delta (subjects s sid)
           \<and> templateCID (subjects s2 sid) = templateCID (subjects s sid)
           \<and> biometricType (subjects s2 sid) = biometricType (subjects s sid)
           \<and> enrolledBy (subjects s2 sid) = enrolledBy (subjects s sid)
           \<and> enrolledAt (subjects s2 sid) = enrolledAt (subjects s sid)
           \<and> s2 = s\<lparr>subjects := (subjects s)(sid :=
                        (subjects s sid)\<lparr>isActive := True, updatedAt := t2\<rparr>),
                     emitted := emitted s @ [SubjectDeactivated sid c1 t1,
                                             SubjectReactivated sid c2 t2]\<rparr>"
  using assms
  by (simp add: deactivateSubject_def reactivateSubject_def onlyEnrollmentCenter_def
      subjectMustExist_def)

theorem deactivate_reactivate_roundtrip_witness:
  "\<exists>s1 s2. deactivateSubject 3 110 7 ex_state = Inr s1
     \<and> reactivateSubject 1 120 7 s1 = Inr s2
     \<and> isActive (subjects s2 7)
     \<and> commitmentHash (subjects s2 7) = 9
     \<and> delta (subjects s2 7) = [1, 2]
     \<and> enrolledBy (subjects s2 7) = 1
     \<and> enrolledAt (subjects s2 7) = 100
     \<and> updatedAt (subjects s2 7) = 120"
proof -
  have a: "onlyEnrollmentCenter 3 ex_state" "onlyEnrollmentCenter 1 ex_state"
    "subjectExists ex_state 7"
    by (simp_all add: ex_state_def registry_defs)
  have b: "commitmentHash (subjects ex_state 7) = 9" "delta (subjects ex_state 7) = [1, 2]"
    "enrolledBy (subjects ex_state 7) = 1" "enrolledAt (subjects ex_state 7) = 100"
    by (simp_all add: ex_state_def registry_defs)
  from deactivate_reactivate_roundtrip [OF a, of 110 120]
  obtain s1 s2 where r: "deactivateSubject 3 110 7 ex_state = Inr s1"
    "reactivateSubject 1 120 7 s1 = Inr s2" "isActive (subjects s2 7)"
    "commitmentHash (subjects s2 7) = commitmentHash (subjects ex_state 7)"
    "delta (subjects s2 7) = delta (subjects ex_state 7)"
    "enrolledBy (subjects s2 7) = enrolledBy (subjects ex_state 7)"
    "enrolledAt (subjects s2 7) = enrolledAt (subjects ex_state 7)"
    "s2 = ex_state\<lparr>subjects := (subjects ex_state)(7 :=
                        (subjects ex_state 7)\<lparr>isActive := True, updatedAt := 120\<rparr>),
                     emitted := emitted ex_state @ [SubjectDeactivated 7 3 110,
                                             SubjectReactivated 7 1 120]\<rparr>"
    by blast
  have "updatedAt (subjects s2 7) = 120" by (simp add: r(8))
  with r b show ?thesis by auto
qed


subsection \<open>setNodeAuthorization\<close>

text \<open>
  C7, as stated, at a caller that is not an enrollment center: the authentication-only
  node 2 calls \<open>setNodeAuthorization\<close> for address 9, which has no node record, and for
  node 3, which is registered and is not the owner. Both calls revert with "not an
  enrollment center": the first does not fail with "node not found", the second does not
  set the flag.
\<close>

theorem setNodeAuthorization_counterexample:
  "nodeAddress (nodes ex_state 9) = 0
   \<and> setNodeAuthorization 2 200 9 True ex_state \<noteq> Inl NODE_NOT_FOUND
   \<and> nodeAddress (nodes ex_state 3) \<noteq> 0 \<and> 3 \<noteq> owner ex_state
   \<and> setNodeAuthorization 2 200 3 False ex_state = Inl NOT_ENROLLMENT_CENTER"
  by (simp add: ex_state_def registry_defs)

text \<open>
  C7, amended. Called by an authorized enrollment center, \<open>setNodeAuthorization\<close> reverts
  with "node not found" when the address has no node record, reverts with "cannot modify
  owner" when the address is the registered current owner, and on any other registered
  node succeeds and sets \<open>isAuthorized\<close> to the given value, writing nothing else but the
  event. Every other caller is rejected with "not an enrollment center". For every caller
  a call on the current owner's address fails, and no successful call changes the owner
  or the owner's node record.
\<close>

theorem setNodeAuthorization_correct:
  "(onlyEnrollmentCenter c s \<longrightarrow>
      (nodeAddress (nodes s addr) = 0 \<longrightarrow>
         setNodeAuthorization c t addr b s = Inl NODE_NOT_FOUND)
    \<and> (nodeAddress (nodes s addr) \<noteq> 0 \<and> addr = owner s \<longrightarrow>
         setNodeAuthorization c t addr b s = Inl CANNOT_MODIFY_OWNER)
    \<and> (nodeAddress (nodes s addr) \<noteq> 0 \<and> addr \<noteq> owner s \<longrightarrow>
         setNodeAuthorization c t addr b s =
           Inr (s\<lparr>nodes := (nodes s)(addr := (nodes s addr)\<lparr>isAuthorized := b\<rparr>),
                  emitted := emitted s @ [NodeStatusChanged addr b t]\<rparr>)))
   \<and> (\<not> onlyEnrollmentCenter c s \<longrightarrow>
         setNodeAuthorization c t addr b s = Inl NOT_ENROLLMENT_CENTER)
   \<and> (addr = owner s \<longrightarrow> isl (setNodeAuthorization c t addr b s))
   \<and> (\<forall>s'. setNodeAuthorization c t addr b s = Inr s' \<longrightarrow>
         owner s' = owner s \<and> nodes s' (owner s') = nodes s (owner s))"
  by (auto simp: setNodeAuthorization_def)

theorem setNodeAuthorization_correct_witness:
  "onlyEnrollmentCenter 1 ex_state
   \<and> setNodeAuthorization 1 200 9 True ex_state = Inl NODE_NOT_FOUND
   \<and> setNodeAuthorization 1 200 1 False ex_state = Inl CANNOT_MODIFY_OWNER
   \<and> setNodeAuthorization 1 200 2 False ex_state =
       Inr (ex_state\<lparr>nodes := (nodes ex_state)(2 := (nodes ex_state 2)\<lparr>isAuthorized := False\<rparr>),
                     emitted := emitted ex_state @ [NodeStatusChanged 2 False 200]\<rparr>)
   \<and> setNodeAuthorization 2 200 1 False ex_state = Inl NOT_ENROLLMENT_CENTER
   \<and> isl (setNodeAuthorization 3 200 1 False ex_state)"
proof -
  have a: "onlyEnrollmentCenter 1 ex_state"
    and b: "nodeAddress (nodes ex_state 9) = 0"
    and c: "nodeAddress (nodes ex_state 1) \<noteq> 0 \<and> 1 = owner ex_state"
    and d: "nodeAddress (nodes ex_state 2) \<noteq> 0 \<and> 2 \<noteq> owner ex_state"
    and e: "\<not> onlyEnrollmentCenter 2 ex_state"
    by (simp_all add: ex_state_def registry_defs)
  have t1: "setNodeAuthorization 1 200 9 True ex_state = Inl NODE_NOT_FOUND"
    using setNodeAuthorization_correct [of 1 ex_state 9 200 True] a b by blast
  have t2: "setNodeAuthorization 1 200 1 False ex_state = Inl CANNOT_MODIFY_OWNER"
    using setNodeAuthorization_correct [of 1 ex_state 1 200 False] a c by blast
  have t3: "setNodeAuthorization 1 200 2 False ex_state =
       Inr (ex_state\<lparr>nodes := (nodes ex_state)(2 := (nodes ex_state 2)\<lparr>isAuthorized := False\<rparr>),
                     emitted := emitted ex_state @ [NodeStatusChanged 2 False 200]\<rparr>)"
    using setNodeAuthorization_correct [of 1 ex_state 2 200 False] a d by blast
  have t4: "setNodeAuthorization 2 200 1 False ex_state = Inl NOT_ENROLLMENT_CENTER"
    using setNodeAuthorization_correct [of 2 ex_state 1 200 False] e by blast
  have t5: "isl (setNodeAuthorization 3 200 1 False ex_state)"
    using setNodeAuthorization_correct [of 3 ex_state 1 200 False] c by blast
  from a t1 t2 t3 t4 t5 show ?thesis by blast
qed


subsection \<open>registerNode\<close>

lemma registerNode_node:
  assumes "registerNode c t addr nm ec s = Inr s'"
  shows "nodes s' addr = \<lparr>nodeId = nodeCount s + 1, name = nm, nodeAddress = addr,
           isEnrollmentCenter = ec, isAuthorized = True, registeredAt = t,
           enrollmentCount = 0\<rparr>"
proof -
  from assms have ok: "onlyEnrollmentCenter c s" "addr \<noteq> 0" "nodeAddress (nodes s addr) = 0"
    "nodeCount s \<noteq> - 1"
    by (simp_all add: registerNode_def checked_inc_def split: if_splits)
  with assms show ?thesis
    by (simp add: registerNode_def checked_inc_def Let_def) (erule subst, simp)
qed

text \<open>
  C9. A node that \<open>registerNode\<close> creates has \<open>isAuthorized = true\<close> whatever its
  enrollment-center flag, so it passes the \<open>onlyAuthorizedNode\<close> modifier at once: its
  calls of \<open>getSubject\<close>, \<open>verifyCommitment\<close> and \<open>logAuthentication\<close> are not rejected
  as unauthorized; the two reads return their values for an existing active subject, and
  the log call succeeds unless the record counter is at its largest value.
\<close>

theorem registerNode_authorizes:
  assumes "registerNode c t addr nm ec s = Inr s'"
  shows "isAuthorized (nodes s' addr)
       \<and> isEnrollmentCenter (nodes s' addr) = ec
       \<and> onlyAuthorizedNode addr s'
       \<and> getSubject addr sid s' \<noteq> Inl NOT_AUTHORIZED_NODE
       \<and> verifyCommitment addr sid h s' \<noteq> Inl NOT_AUTHORIZED_NODE
       \<and> logAuthentication addr t' sid ok why s' \<noteq> Inl NOT_AUTHORIZED_NODE
       \<and> (subjectExists s' sid \<and> isActive (subjects s' sid) \<longrightarrow>
            getSubject addr sid s' =
              Inr (subjectId (subjects s' sid), commitmentHash (subjects s' sid),
                   delta (subjects s' sid), templateCID (subjects s' sid),
                   biometricType (subjects s' sid), enrolledAt (subjects s' sid))
          \<and> verifyCommitment addr sid h s' = Inr (commitmentHash (subjects s' sid) = h))
       \<and> (authRecordCount s' \<noteq> - 1 \<longrightarrow> \<not> isl (logAuthentication addr t' sid ok why s'))"
proof -
  have a: "isAuthorized (nodes s' addr)" and b: "isEnrollmentCenter (nodes s' addr) = ec"
    by (simp_all add: registerNode_node [OF assms])
  have c: "onlyAuthorizedNode addr s'"
    using a by (simp add: onlyAuthorizedNode_def)
  have d: "getSubject addr sid s' \<noteq> Inl NOT_AUTHORIZED_NODE"
    using c by (simp add: getSubject_def Let_def)
  have e: "verifyCommitment addr sid h s' \<noteq> Inl NOT_AUTHORIZED_NODE"
    using c by (simp add: verifyCommitment_def)
  have f: "logAuthentication addr t' sid ok why s' \<noteq> Inl NOT_AUTHORIZED_NODE"
    using c by (simp add: logAuthentication_def checked_inc_def Let_def)
  have g: "subjectExists s' sid \<and> isActive (subjects s' sid) \<longrightarrow>
            getSubject addr sid s' =
              Inr (subjectId (subjects s' sid), commitmentHash (subjects s' sid),
                   delta (subjects s' sid), templateCID (subjects s' sid),
                   biometricType (subjects s' sid), enrolledAt (subjects s' sid))
          \<and> verifyCommitment addr sid h s' = Inr (commitmentHash (subjects s' sid) = h)"
    using c by (simp add: getSubject_def verifyCommitment_def subjectMustExist_def
        subjectMustBeActive_def Let_def)
  have h: "authRecordCount s' \<noteq> - 1 \<longrightarrow> \<not> isl (logAuthentication addr t' sid ok why s')"
    using c by (simp add: logAuthentication_def checked_inc_def Let_def)
  from a b c d e f g h show ?thesis by blast
qed

theorem registerNode_authorizes_witness:
  "registerNode 1 200 4 ''AC 4'' False ex_state =
      Inr (apply_tx (1, 200, RegisterNode 4 ''AC 4'' False) ex_state)
   \<and> isAuthorized (nodes (apply_tx (1, 200, RegisterNode 4 ''AC 4'' False) ex_state) 4)
   \<and> \<not> isEnrollmentCenter (nodes (apply_tx (1, 200, RegisterNode 4 ''AC 4'' False) ex_state) 4)
   \<and> verifyCommitment 4 7 9 (apply_tx (1, 200, RegisterNode 4 ''AC 4'' False) ex_state)
        = Inr True
   \<and> \<not> isl (getSubject 4 7 (apply_tx (1, 200, RegisterNode 4 ''AC 4'' False) ex_state))
   \<and> \<not> isl (logAuthentication 4 201 7 True ''ok''
               (apply_tx (1, 200, RegisterNode 4 ''AC 4'' False) ex_state))"
proof -
  define s' where "s' = apply_tx (1, 200, RegisterNode 4 ''AC 4'' False) ex_state"
  have a: "registerNode 1 200 4 ''AC 4'' False ex_state = Inr s'"
    by (simp add: s'_def ex_state_def registry_defs)
  have b: "subjectExists s' 7 \<and> isActive (subjects s' 7)"
    and c: "authRecordCount s' \<noteq> - 1"
    and d: "commitmentHash (subjects s' 7) = 9"
    by (simp_all add: s'_def ex_state_def registry_defs)
  note r = registerNode_authorizes [OF a, where sid = 7 and h = 9 and t' = 201 and ok = True
      and why = "''ok''"]
  have t1: "isAuthorized (nodes s' 4)" using r by blast
  have t2: "\<not> isEnrollmentCenter (nodes s' 4)" using r by blast
  have t3: "verifyCommitment 4 7 9 s' = Inr (commitmentHash (subjects s' 7) = 9)"
    using r b by blast
  have t4: "\<not> isl (getSubject 4 7 s')" using r b by (metis sum.disc(2))
  have t5: "\<not> isl (logAuthentication 4 201 7 True ''ok'' s')" using r c by blast
  from a t1 t2 t3 t4 t5 d show ?thesis unfolding s'_def by simp
qed


subsection \<open>Authorization does not look at the enrolling node\<close>

text \<open>
  C10, as stated, at a zero commitment hash: subject 7 exists, is active and was enrolled
  by node 1; node 3, another authorized enrollment center, calls \<open>updateSubject\<close> for it
  with commitment hash 0. The existence and activity preconditions hold, and the call
  does not succeed: it reverts with "invalid commitment hash".
\<close>

theorem enrolledBy_confers_no_rights_counterexample:
  "onlyEnrollmentCenter 3 ex_state
   \<and> subjectExists ex_state 7 \<and> isActive (subjects ex_state 7)
   \<and> enrolledBy (subjects ex_state 7) = 1
   \<and> updateSubject 3 200 7 0 [3] ''Qn'' ex_state = Inl INVALID_COMMITMENT_HASH"
  by (simp add: ex_state_def registry_defs)

text \<open>
  C10, amended. For a caller that is an authorized enrollment center and an existing
  subject, whichever node enrolled it: \<open>deactivateSubject\<close> and \<open>reactivateSubject\<close>
  return the storage with \<open>isActive\<close> cleared, respectively set, and \<open>updatedAt\<close> set to
  the block timestamp; on an active subject \<open>updateSubject\<close> with a non-zero commitment
  hash returns the storage with the subject's commitment hash, delta and template
  reference replaced by the arguments and \<open>updatedAt\<close> set, and with a zero commitment
  hash it reverts with "invalid commitment hash". Each call writes nothing else but its
  event, and \<open>enrolledBy\<close> is neither read nor written: for every caller, whether each
  of the three calls fails is the same after \<open>enrolledBy\<close> of the subject is replaced by
  any address \<open>e\<close>.
\<close>

theorem enrolledBy_confers_no_rights:
  assumes "onlyEnrollmentCenter c s" and "subjectExists s sid"
  shows "deactivateSubject c t sid s =
           Inr (s\<lparr>subjects := (subjects s)(sid :=
                     (subjects s sid)\<lparr>isActive := False, updatedAt := t\<rparr>),
                  emitted := emitted s @ [SubjectDeactivated sid c t]\<rparr>)
       \<and> reactivateSubject c t sid s =
           Inr (s\<lparr>subjects := (subjects s)(sid :=
                     (subjects s sid)\<lparr>isActive := True, updatedAt := t\<rparr>),
                  emitted := emitted s @ [SubjectReactivated sid c t]\<rparr>)
       \<and> (isActive (subjects s sid) \<and> ch \<noteq> 0 \<longrightarrow>
            updateSubject c t sid ch dl cid s =
              Inr (s\<lparr>subjects := (subjects s)(sid :=
                        (subjects s sid)\<lparr>commitmentHash := ch, delta := dl,
                                         templateCID := cid, updatedAt := t\<rparr>),
                     emitted := emitted s @ [SubjectUpdated sid c t]\<rparr>))
       \<and> (isActive (subjects s sid) \<and> ch = 0 \<longrightarrow>
            updateSubject c t sid ch dl cid s = Inl INVALID_COMMITMENT_HASH)
       \<and> isl (deactivateSubject c' t sid
                (s\<lparr>subjects := (subjects s)(sid := (subjects s sid)\<lparr>enrolledBy := e\<rparr>)\<rparr>))
          = isl (deactivateSubject c' t sid s)
       \<and> isl (reactivateSubject c' t sid
                (s\<lparr>subjects := (subjects s)(sid := (subjects s sid)\<lparr>enrolledBy := e\<rparr>)\<rparr>))
          = isl (reactivateSubject c' t sid s)
       \<and> isl (updateSubject c' t sid ch dl cid
                (s\<lparr>subjects := (subjects s)(sid := (subjects s sid)\<lparr>enrolledBy := e\<rparr>)\<rparr>))
          = isl (updateSubject c' t sid ch dl cid s)"
proof -
  let ?s = "s\<lparr>subjects := (subjects s)(sid := (subjects s sid)\<lparr>enrolledBy := e\<rparr>)\<rparr>"
  have a: "deactivateSubject c t sid s =
           Inr (s\<lparr>subjects := (subjects s)(sid :=
                     (subjects s sid)\<lparr>isActive := False, updatedAt := t\<rparr>),
                  emitted := emitted s @ [SubjectDeactivated sid c t]\<rparr>)"
    using assms by (simp add: deactivateSubject_def subjectMustExist_def)
  have b: "reactivateSubject c t sid s =
           Inr (s\<lparr>subjects := (subjects s)(sid :=
                     (subjects s sid)\<lparr>isActive := True, updatedAt := t\<rparr>),
                  emitted := emitted s @ [SubjectReactivated sid c t]\<rparr>)"
    using assms by (simp add: reactivateSubject_def subjectMustExist_def)
  have c: "isActive (subjects s sid) \<and> ch \<noteq> 0 \<longrightarrow>
            updateSubject c t sid ch dl cid s =
              Inr (s\<lparr>subjects := (subjects s)(sid :=
                        (subjects s sid)\<lparr>commitmentHash := ch, delta := dl,
                                         templateCID := cid, updatedAt := t\<rparr>),
                     emitted := emitted s @ [SubjectUpdated sid c t]\<rparr>)"
    using assms by (simp add: updateSubject_def subjectMustExist_def subjectMustBeActive_def)
  have c0: "isActive (subjects s sid) \<and> ch = 0 \<longrightarrow>
            updateSubject c t sid ch dl cid s = Inl INVALID_COMMITMENT_HASH"
    using assms by (simp add: updateSubject_def subjectMustExist_def subjectMustBeActive_def)
  have d: "isl (deactivateSubject c' t sid ?s) = isl (deactivateSubject c' t sid s)"
    by (simp add: deactivateSubject_def subjectMustExist_def onlyEnrollmentCenter_def)
  have e: "isl (reactivateSubject c' t sid ?s) = isl (reactivateSubject c' t sid s)"
    by (simp add: reactivateSubject_def subjectMustExist_def onlyEnrollmentCenter_def)
  have f: "isl (updateSubject c' t sid ch dl cid ?s) = isl (updateSubject c' t sid ch dl cid s)"
    by (simp add: updateSubject_def subjectMustExist_def subjectMustBeActive_def
        onlyEnrollmentCenter_def)
  show ?thesis
    by (rule conjI [OF a conjI [OF b conjI [OF c conjI [OF c0 conjI [OF d conjI [OF e f]]]]]])
qed

theorem enrolledBy_confers_no_rights_witness:
  "enrolledBy (subjects ex_state 7) = 1
   \<and> onlyEnrollmentCenter 3 ex_state
   \<and> deactivateSubject 3 200 7 ex_state =
       Inr (ex_state\<lparr>subjects := (subjects ex_state)(7 :=
                        (subjects ex_state 7)\<lparr>isActive := False, updatedAt := 200\<rparr>),
                     emitted := emitted ex_state @ [SubjectDeactivated 7 3 200]\<rparr>)
   \<and> reactivateSubject 3 200 7 ex_state =
       Inr (ex_state\<lparr>subjects := (subjects ex_state)(7 :=
                        (subjects ex_state 7)\<lparr>isActive := True, updatedAt := 200\<rparr>),
                     emitted := emitted ex_state @ [SubjectReactivated 7 3 200]\<rparr>)
   \<and> updateSubject 3 200 7 11 [3] ''Qn'' ex_state =
       Inr (ex_state\<lparr>subjects := (subjects ex_state)(7 :=
                        (subjects ex_state 7)\<lparr>commitmentHash := 11, delta := [3],
                                                templateCID := ''Qn'', updatedAt := 200\<rparr>),
                     emitted := emitted ex_state @ [SubjectUpdated 7 3 200]\<rparr>)
   \<and> updateSubject 3 200 7 0 [3] ''Qn'' ex_state = Inl INVALID_COMMITMENT_HASH"
proof -
  have a: "onlyEnrollmentCenter 3 ex_state" and b: "subjectExists ex_state 7"
    and c: "isActive (subjects ex_state 7) \<and> (11 :: bytes32) \<noteq> 0"
    and c0: "isActive (subjects ex_state 7) \<and> (0 :: bytes32) = 0"
    and d: "enrolledBy (subjects ex_state 7) = 1"
    by (simp_all add: ex_state_def registry_defs)
  note r = enrolledBy_confers_no_rights [OF a b, where t = 200 and ch = 11 and dl = "[3]"
      and cid = "''Qn''"]
  note r0 = enrolledBy_confers_no_rights [OF a b, where t = 200 and ch = 0 and dl = "[3]"
      and cid = "''Qn''"]
  note t1 = r [THEN conjunct1]
  note t2 = r [THEN conjunct2, THEN conjunct1]
  note t3 = r [THEN conjunct2, THEN conjunct2, THEN conjunct1, THEN mp, OF c]
  note t4 = r0 [THEN conjunct2, THEN conjunct2, THEN conjunct2, THEN conjunct1, THEN mp, OF c0]
  show ?thesis
    by (rule conjI [OF d conjI [OF a conjI [OF t1 conjI [OF t2 conjI [OF t3 t4]]]]])
qed

subsection \<open>transferOwnership\<close>

lemma transferOwnership_to_other:
  assumes "c = owner s" and "newOwner \<noteq> 0" and "newOwner \<noteq> owner s"
  shows "\<exists>s'. transferOwnership c newOwner s = Inr s'
           \<and> owner s' = newOwner
           \<and> nodes s' newOwner = (nodes s (owner s))\<lparr>nodeAddress := newOwner\<rparr>
           \<and> nodes s' (owner s) = zero_Node
           \<and> allNodeAddresses s' = allNodeAddresses s @ [newOwner]
           \<and> enrollSubject (owner s) t sid ch dl cid bt s' = Inl NOT_ENROLLMENT_CENTER
           \<and> onlyEnrollmentCenter newOwner s' = onlyEnrollmentCenter (owner s) s"
  using assms
  by (simp add: transferOwnership_def onlyOwner_def Let_def enrollSubject_def
      onlyEnrollmentCenter_def zero_Node_def)

lemma transferOwnership_not_owner:
  "c \<noteq> owner s \<Longrightarrow> transferOwnership c newOwner s = Inl NOT_OWNER"
  by (simp add: transferOwnership_def onlyOwner_def)

lemma transferOwnership_zero:
  "c = owner s \<Longrightarrow> transferOwnership c 0 s = Inl INVALID_NEW_OWNER"
  by (simp add: transferOwnership_def onlyOwner_def)

text \<open>
  C8 at a transfer of the ownership to the owner's own address, in the registry that the
  constructor leaves: the call succeeds, the copy of the node record onto itself is
  followed by the \<open>delete\<close> of that same slot, and the owner, who is the new owner as
  well, is left with the zero node record and is rejected by \<open>enrollSubject\<close> and
  \<open>registerNode\<close> as not being an enrollment center.
\<close>

theorem transferOwnership_to_self:
  "transferOwnership 1 1 (constructor 1 100) = Inr ex_self_transfer
   \<and> owner ex_self_transfer = 1
   \<and> nodes ex_self_transfer 1 = zero_Node
   \<and> \<not> onlyEnrollmentCenter 1 ex_self_transfer
   \<and> \<not> onlyAuthorizedNode 1 ex_self_transfer
   \<and> enrollSubject 1 102 7 9 [1, 2] ''Qm'' FACIAL ex_self_transfer = Inl NOT_ENROLLMENT_CENTER
   \<and> registerNode 1 102 2 ''Auth Center'' False ex_self_transfer = Inl NOT_ENROLLMENT_CENTER"
  by (simp add: ex_self_transfer_def registry_defs)


subsection \<open>Checked increments\<close>

lemma checked_inc_Inr:
  assumes "checked_inc x = Inr y"
  shows "y = x + 1" and "unat y = Suc (unat x)"
proof -
  from assms have ne: "x \<noteq> - 1" and y: "y = x + 1"
    by (auto simp: checked_inc_def split: if_splits)
  from ne have "1 + x \<noteq> 0"
    by (metis add.commute add_eq_0_iff2 minus_minus)
  then have "unat (1 + x) = Suc (unat x)" by (rule unatSuc)
  with y show "y = x + 1" and "unat y = Suc (unat x)" by (simp_all add: add.commute)
qed

subsection \<open>The audit log\<close>

lemma logAuthentication_effect:
  assumes "logAuthentication a t sid ok why s = Inr s'"
  shows "unat (authRecordCount s') = Suc (unat (authRecordCount s))"
    and "authRecords s' = (authRecords s)(authRecordCount s' :=
           \<lparr>rec_subjectId = sid, verifier = a, success = ok, reason = why, timestamp = t\<rparr>)"
    and "authRecordCount s' = authRecordCount s + 1"
proof -
  from assms obtain c where c: "checked_inc (authRecordCount s) = Inr c"
    and s': "s' = s\<lparr>authRecordCount := c,
        authRecords := (authRecords s)(c :=
           \<lparr>rec_subjectId = sid, verifier = a, success = ok, reason = why, timestamp = t\<rparr>),
        emitted := emitted s @ [AuthenticationLogged sid a ok t]\<rparr>"
    by (auto simp: logAuthentication_def Let_def split: if_splits sum.splits)
  from s' have "authRecordCount s' = c" by simp
  with checked_inc_Inr(2) [OF c]
  show "unat (authRecordCount s') = Suc (unat (authRecordCount s))" by simp
  from s' show "authRecords s' = (authRecords s)(authRecordCount s' :=
           \<lparr>rec_subjectId = sid, verifier = a, success = ok, reason = why, timestamp = t\<rparr>)"
    by simp
  from s' checked_inc_Inr(1) [OF c] show "authRecordCount s' = authRecordCount s + 1"
    by simp
qed

lemma enrollSubject_log:
  "enrollSubject a t sid ch dl cid bt s = Inr s' \<Longrightarrow>
     authRecordCount s' = authRecordCount s \<and> authRecords s' = authRecords s"
  by (auto simp: enrollSubject_def Let_def split: if_splits sum.splits)

lemma updateSubject_log:
  "updateSubject a t sid ch dl cid s = Inr s' \<Longrightarrow>
     authRecordCount s' = authRecordCount s \<and> authRecords s' = authRecords s"
  by (auto simp: updateSubject_def split: if_splits)

lemma deactivateSubject_log:
  "deactivateSubject a t sid s = Inr s' \<Longrightarrow>
     authRecordCount s' = authRecordCount s \<and> authRecords s' = authRecords s"
  by (auto simp: deactivateSubject_def split: if_splits)

lemma reactivateSubject_log:
  "reactivateSubject a t sid s = Inr s' \<Longrightarrow>
     authRecordCount s' = authRecordCount s \<and> authRecords s' = authRecords s"
  by (auto simp: reactivateSubject_def split: if_splits)

lemma registerNode_log:
  "registerNode a t addr nm ec s = Inr s' \<Longrightarrow>
     authRecordCount s' = authRecordCount s \<and> authRecords s' = authRecords s"
  by (auto simp: registerNode_def Let_def split: if_splits sum.splits)

lemma setNodeAuthorization_log:
  "setNodeAuthorization a t addr b s = Inr s' \<Longrightarrow>
     authRecordCount s' = authRecordCount s \<and> authRecords s' = authRecords s"
  by (auto simp: setNodeAuthorization_def split: if_splits)

lemma transferOwnership_log:
  "transferOwnership a newOwner s = Inr s' \<Longrightarrow>
     authRecordCount s' = authRecordCount s \<and> authRecords s' = authRecords s"
  by (auto simp: transferOwnership_def Let_def split: if_splits)

lemma exec_log_other:
  assumes "exec a t c s = Inr s'" and "\<not> (\<exists>sid ok why. c = LogAuthentication sid ok why)"
  shows "authRecordCount s' = authRecordCount s \<and> authRecords s' = authRecords s"
  using assms
  by (cases c)
    (auto simp: enrollSubject_log updateSubject_log deactivateSubject_log
      reactivateSubject_log registerNode_log setNodeAuthorization_log transferOwnership_log)

lemma log_entries_other:
  assumes "\<not> (\<exists>sid ok why. c = LogAuthentication sid ok why)"
  shows "log_entries ((a, t, c) # xs) s = log_entries xs (apply_tx (a, t, c) s)"
  using assms by (cases c) auto

lemma log_entries_invariant:
  "map (unat \<circ> fst) (log_entries txs s) =
      [Suc (unat (authRecordCount s)) ..<
         Suc (unat (authRecordCount s)) + length (log_entries txs s)]
   \<and> unat (authRecordCount (run txs s)) =
        unat (authRecordCount s) + length (log_entries txs s)
   \<and> (\<forall>(i, r) \<in> set (log_entries txs s). authRecords (run txs s) i = r)
   \<and> (\<forall>i. unat i \<le> unat (authRecordCount s) \<longrightarrow>
         authRecords (run txs s) i = authRecords s i)"
proof (induction txs arbitrary: s)
  case Nil
  show ?case by simp
next
  case (Cons x xs)
  obtain a t c where x: "x = (a, t, c)" by (cases x) auto
  show ?case
  proof (cases "\<exists>sid ok why. c = LogAuthentication sid ok why")
    case False
    note other = False
    have le: "log_entries (x # xs) s = log_entries xs (apply_tx x s)"
      unfolding x by (rule log_entries_other [OF other])
    have same: "authRecordCount (apply_tx x s) = authRecordCount s
        \<and> authRecords (apply_tx x s) = authRecords s"
    proof (cases "exec a t c s")
      case (Inl e)
      then show ?thesis by (simp add: x)
    next
      case (Inr s')
      with exec_log_other [OF Inr other] show ?thesis by (simp add: x)
    qed
    from Cons.IH [of "apply_tx x s"] le same show ?thesis by simp
  next
    case True
    then obtain sid ok why where c: "c = LogAuthentication sid ok why" by blast
    show ?thesis
    proof (cases "logAuthentication a t sid ok why s")
      case (Inl e)
      then have "log_entries (x # xs) s = log_entries xs s" and "apply_tx x s = s"
        by (simp_all add: x c)
      with Cons.IH [of s] show ?thesis by simp
    next
      case (Inr s')
      let ?k = "authRecordCount s'"
      let ?n = "unat (authRecordCount s)"
      let ?es = "log_entries xs s'"
      let ?r = "\<lparr>rec_subjectId = sid, verifier = a, success = ok, reason = why,
                 timestamp = t\<rparr>"
      note keq = logAuthentication_effect(3) [OF Inr]
      have le: "log_entries (x # xs) s = (?k, ?r) # ?es"
        and ap: "apply_tx x s = s'"
        using Inr by (simp_all add: x c keq)
      have k: "unat ?k = Suc ?n" by (rule logAuthentication_effect(1) [OF Inr])
      have new: "authRecords s' ?k = ?r"
        by (simp add: logAuthentication_effect(2) [OF Inr])
      have old: "authRecords s' i = authRecords s i" if "unat i \<le> ?n" for i
      proof -
        from that k have "i \<noteq> ?k" by auto
        then show ?thesis by (simp add: logAuthentication_effect(2) [OF Inr])
      qed
      note IH = Cons.IH [of s']
      note ih1 = IH [THEN conjunct1]
        and ih2 = IH [THEN conjunct2, THEN conjunct1]
        and ih3 = IH [THEN conjunct2, THEN conjunct2, THEN conjunct1]
        and ih4 = IH [THEN conjunct2, THEN conjunct2, THEN conjunct2]
      have g1: "map (unat \<circ> fst) (log_entries (x # xs) s) =
          [Suc ?n ..< Suc ?n + length (log_entries (x # xs) s)]"
        by (simp add: le ih1 k upt_conv_Cons del: upt_Suc)
      have g2: "unat (authRecordCount (run (x # xs) s)) = ?n + length (log_entries (x # xs) s)"
        by (simp add: le ap ih2 k)
      have hd: "authRecords (run xs s') ?k = ?r"
        using ih4 new by simp
      have g3: "\<forall>(i, r) \<in> set (log_entries (x # xs) s). authRecords (run (x # xs) s) i = r"
        using ih3 hd by (auto simp: le ap)
      have g4: "\<forall>i. unat i \<le> ?n \<longrightarrow> authRecords (run (x # xs) s) i = authRecords s i"
        using ih4 old k by (simp add: ap)
      from g1 g2 g3 g4 show ?thesis by blast
    qed
  qed
qed

text \<open>
  C6. Over any sequence of transactions by any callers, started in any storage, the ids
  that the \<open>logAuthentication\<close> calls that do not revert assign are, in order, the
  consecutive numbers following the record counter (so 1, 2, 3, ... on a registry fresh
  from its constructor), the counter grows by the number of those calls, and at the end
  of the sequence the storage holds under each of these ids exactly the record that call
  passed (its subject id, sender, outcome, reason and timestamp), and in every slot up to
  the counter's initial value what it held before: no later transaction overwrites or
  deletes a record.
\<close>

theorem audit_log_append_only:
  "map (unat \<circ> fst) (log_entries txs (constructor a t)) =
      [1 ..< 1 + length (log_entries txs (constructor a t))]
   \<and> map (unat \<circ> fst) (log_entries txs s) =
        [unat (authRecordCount s) + 1 ..<
           unat (authRecordCount s) + 1 + length (log_entries txs s)]
   \<and> unat (totalAuthRecords (run txs s)) =
        unat (totalAuthRecords s) + length (log_entries txs s)
   \<and> (\<forall>(i, r) \<in> set (log_entries txs s). authRecords (run txs s) i = r)
   \<and> (\<forall>i. unat i \<le> unat (authRecordCount s) \<longrightarrow>
         authRecords (run txs s) i = authRecords s i)"
proof -
  have z: "unat (authRecordCount (constructor a t)) = 0"
    by (simp add: constructor_def)
  have g0: "map (unat \<circ> fst) (log_entries txs (constructor a t)) =
      [1 ..< 1 + length (log_entries txs (constructor a t))]"
    using log_entries_invariant [of txs "constructor a t", THEN conjunct1]
    by (simp only: z) simp
  have g1: "map (unat \<circ> fst) (log_entries txs s) =
        [unat (authRecordCount s) + 1 ..<
           unat (authRecordCount s) + 1 + length (log_entries txs s)]"
    using log_entries_invariant [of txs s, THEN conjunct1] by (simp only: Suc_eq_plus1)
  have g2: "unat (totalAuthRecords (run txs s)) =
        unat (totalAuthRecords s) + length (log_entries txs s)"
    using log_entries_invariant [of txs s, THEN conjunct2, THEN conjunct1]
    by (simp add: totalAuthRecords_def)
  note g3 = log_entries_invariant [of txs s, THEN conjunct2, THEN conjunct2]
  from g0 g1 g2 g3 show ?thesis by blast
qed

theorem audit_log_append_only_witness:
  "log_entries ex_log_txs (constructor 1 100) =
      [(1, \<lparr>rec_subjectId = 7, verifier = 2, success = True, reason = ''ok'',
            timestamp = 102\<rparr>),
       (2, \<lparr>rec_subjectId = 8, verifier = 1, success = False, reason = ''mismatch'',
            timestamp = 104\<rparr>)]
   \<and> authRecords (run ex_log_txs (constructor 1 100)) 1 =
        \<lparr>rec_subjectId = 7, verifier = 2, success = True, reason = ''ok'', timestamp = 102\<rparr>
   \<and> authRecords (run ex_log_txs (constructor 1 100)) 2 =
        \<lparr>rec_subjectId = 8, verifier = 1, success = False, reason = ''mismatch'',
         timestamp = 104\<rparr>
   \<and> unat (totalAuthRecords (run ex_log_txs (constructor 1 100))) = 2"
proof -
  let ?r1 = "\<lparr>rec_subjectId = 7, verifier = 2, success = True, reason = ''ok'',
              timestamp = 102\<rparr>"
  let ?r2 = "\<lparr>rec_subjectId = 8, verifier = 1, success = False, reason = ''mismatch'',
              timestamp = 104\<rparr>"
  have e: "log_entries ex_log_txs (constructor 1 100) = [(1, ?r1), (2, ?r2)]"
    by (simp add: ex_log_txs_def registry_defs)
  have z: "unat (totalAuthRecords (constructor 1 100)) = 0"
    by (simp add: totalAuthRecords_def constructor_def)
  note r = audit_log_append_only [of ex_log_txs 1 100 "constructor 1 100"]
  note q = r [THEN conjunct2, THEN conjunct2, THEN conjunct2, THEN conjunct1]
  have t1: "authRecords (run ex_log_txs (constructor 1 100)) 1 = ?r1"
    using q unfolding e by simp
  have t2: "authRecords (run ex_log_txs (constructor 1 100)) 2 = ?r2"
    using q unfolding e by simp
  note n = r [THEN conjunct2, THEN conjunct2, THEN conjunct1]
  have t3: "unat (totalAuthRecords (run ex_log_txs (constructor 1 100))) = 2"
    using n unfolding e z by simp
  show ?thesis by (rule conjI [OF e conjI [OF t1 conjI [OF t2 t3]]])
qed


subsection \<open>Consistency of the subject ledger in every reachable state\<close>

lemma ledger_inv_constructor: "ledger_inv (constructor a t)"
  by (simp add: ledger_inv_def constructor_def zero_Node_def)

lemma ledger_inv_frame:
  assumes "ledger_inv s"
    and "subjectExists s' = subjectExists s"
    and "allSubjectIds s' = allSubjectIds s"
    and "subjectCount s' = subjectCount s"
    and "\<And>b. unat (enrollmentCount (nodes s' b)) \<le> length (allSubjectIds s)"
  shows "ledger_inv s'"
  using assms unfolding ledger_inv_def by simp

lemma ledger_inv_count:
  "ledger_inv s \<Longrightarrow> unat (enrollmentCount (nodes s b)) \<le> length (allSubjectIds s)"
  by (simp add: ledger_inv_def)

lemma ledger_inv_updateSubject:
  assumes "ledger_inv s" and "updateSubject a t sid ch dl cid s = Inr s'"
  shows "ledger_inv s'"
proof (rule ledger_inv_frame [OF assms(1)])
  from assms(2) show "subjectExists s' = subjectExists s" "allSubjectIds s' = allSubjectIds s"
    "subjectCount s' = subjectCount s"
    by (auto simp: updateSubject_def split: if_splits)
  from assms(2) have "nodes s' = nodes s" by (auto simp: updateSubject_def split: if_splits)
  then show "unat (enrollmentCount (nodes s' b)) \<le> length (allSubjectIds s)" for b
    by (simp add: ledger_inv_count [OF assms(1)])
qed

lemma ledger_inv_deactivateSubject:
  assumes "ledger_inv s" and "deactivateSubject a t sid s = Inr s'"
  shows "ledger_inv s'"
proof (rule ledger_inv_frame [OF assms(1)])
  from assms(2) show "subjectExists s' = subjectExists s" "allSubjectIds s' = allSubjectIds s"
    "subjectCount s' = subjectCount s"
    by (auto simp: deactivateSubject_def split: if_splits)
  from assms(2) have "nodes s' = nodes s" by (auto simp: deactivateSubject_def split: if_splits)
  then show "unat (enrollmentCount (nodes s' b)) \<le> length (allSubjectIds s)" for b
    by (simp add: ledger_inv_count [OF assms(1)])
qed

lemma ledger_inv_reactivateSubject:
  assumes "ledger_inv s" and "reactivateSubject a t sid s = Inr s'"
  shows "ledger_inv s'"
proof (rule ledger_inv_frame [OF assms(1)])
  from assms(2) show "subjectExists s' = subjectExists s" "allSubjectIds s' = allSubjectIds s"
    "subjectCount s' = subjectCount s"
    by (auto simp: reactivateSubject_def split: if_splits)
  from assms(2) have "nodes s' = nodes s" by (auto simp: reactivateSubject_def split: if_splits)
  then show "unat (enrollmentCount (nodes s' b)) \<le> length (allSubjectIds s)" for b
    by (simp add: ledger_inv_count [OF assms(1)])
qed

lemma ledger_inv_logAuthentication:
  assumes "ledger_inv s" and "logAuthentication a t sid ok why s = Inr s'"
  shows "ledger_inv s'"
proof (rule ledger_inv_frame [OF assms(1)])
  from assms(2) show "subjectExists s' = subjectExists s" "allSubjectIds s' = allSubjectIds s"
    "subjectCount s' = subjectCount s"
    by (auto simp: logAuthentication_def Let_def split: if_splits sum.splits)
  from assms(2) have "nodes s' = nodes s"
    by (auto simp: logAuthentication_def Let_def split: if_splits sum.splits)
  then show "unat (enrollmentCount (nodes s' b)) \<le> length (allSubjectIds s)" for b
    by (simp add: ledger_inv_count [OF assms(1)])
qed

lemma ledger_inv_registerNode:
  assumes "ledger_inv s" and "registerNode a t addr nm ec s = Inr s'"
  shows "ledger_inv s'"
proof (rule ledger_inv_frame [OF assms(1)])
  from assms(2) show "subjectExists s' = subjectExists s" "allSubjectIds s' = allSubjectIds s"
    "subjectCount s' = subjectCount s"
    by (auto simp: registerNode_def Let_def split: if_splits sum.splits)
  from assms(2) have "enrollmentCount (nodes s' b) = (if b = addr then 0 else enrollmentCount (nodes s b))" for b
    by (auto simp: registerNode_def Let_def split: if_splits sum.splits)
  then show "unat (enrollmentCount (nodes s' b)) \<le> length (allSubjectIds s)" for b
    by (simp add: ledger_inv_count [OF assms(1)])
qed

lemma ledger_inv_setNodeAuthorization:
  assumes "ledger_inv s" and "setNodeAuthorization a t addr b s = Inr s'"
  shows "ledger_inv s'"
proof (rule ledger_inv_frame [OF assms(1)])
  from assms(2) show "subjectExists s' = subjectExists s" "allSubjectIds s' = allSubjectIds s"
    "subjectCount s' = subjectCount s"
    by (auto simp: setNodeAuthorization_def split: if_splits)
  from assms(2) have "enrollmentCount (nodes s' x) = enrollmentCount (nodes s x)" for x
    by (auto simp: setNodeAuthorization_def split: if_splits)
  then show "unat (enrollmentCount (nodes s' x)) \<le> length (allSubjectIds s)" for x
    by (simp add: ledger_inv_count [OF assms(1)])
qed

lemma ledger_inv_transferOwnership:
  assumes "ledger_inv s" and "transferOwnership a newOwner s = Inr s'"
  shows "ledger_inv s'"
proof (rule ledger_inv_frame [OF assms(1)])
  from assms(2) show "subjectExists s' = subjectExists s" "allSubjectIds s' = allSubjectIds s"
    "subjectCount s' = subjectCount s"
    by (auto simp: transferOwnership_def Let_def split: if_splits)
  from assms(2) have "enrollmentCount (nodes s' x) =
      (if x = owner s then 0
       else if x = newOwner then enrollmentCount (nodes s (owner s))
       else enrollmentCount (nodes s x))" for x
    by (auto simp: transferOwnership_def Let_def zero_Node_def split: if_splits)
  then show "unat (enrollmentCount (nodes s' x)) \<le> length (allSubjectIds s)" for x
    by (simp add: ledger_inv_count [OF assms(1)])
qed


lemma enrollSubject_pre:
  assumes "enrollSubject a t sid ch dl cid bt s = Inr s'"
  shows "onlyEnrollmentCenter a s" and "sid \<noteq> 0" and "ch \<noteq> 0" and "\<not> subjectExists s sid"
    and "enrollmentCount (nodes s a) \<noteq> - 1" and "subjectCount s \<noteq> - 1"
  using assms
  by (simp_all add: enrollSubject_def Let_def checked_inc_def split: if_splits)

lemma enrollSubject_success:
  assumes "onlyEnrollmentCenter a s" and "sid \<noteq> 0" and "ch \<noteq> 0" and "\<not> subjectExists s sid"
    and "enrollmentCount (nodes s a) \<noteq> - 1" and "subjectCount s \<noteq> - 1"
  shows "enrollSubject a t sid ch dl cid bt s =
     Inr (s\<lparr>subjects := (subjects s)(sid :=
               \<lparr>subjectId = sid, commitmentHash = ch, delta = dl, templateCID = cid,
                biometricType = bt, enrolledBy = a, enrolledAt = t, updatedAt = t,
                isActive = True\<rparr>),
             subjectExists := (subjectExists s)(sid := True),
             allSubjectIds := allSubjectIds s @ [sid],
             nodeEnrollments := (nodeEnrollments s)(a := nodeEnrollments s a @ [sid]),
             nodes := (nodes s)(a := (nodes s a)\<lparr>enrollmentCount :=
                        enrollmentCount (nodes s a) + 1\<rparr>),
             subjectCount := subjectCount s + 1,
             emitted := emitted s @ [SubjectEnrolled sid a bt t]\<rparr>)"
  using assms by (simp add: enrollSubject_def Let_def checked_inc_def)

lemma unat_inc:
  fixes x :: uint256
  assumes "x \<noteq> - 1"
  shows "unat (x + 1) = Suc (unat x)"
proof -
  have "checked_inc x = Inr (x + 1)" using assms by (simp add: checked_inc_def)
  then show ?thesis by (rule checked_inc_Inr(2))
qed

lemma ledger_inv_enrollSubject:
  assumes "ledger_inv s" and "enrollSubject a t sid ch dl cid bt s = Inr s'"
  shows "ledger_inv s'"
proof -
  note pre = enrollSubject_pre [OF assms(2)]
  from assms(2) have s': "s' = s\<lparr>subjects := (subjects s)(sid :=
               \<lparr>subjectId = sid, commitmentHash = ch, delta = dl, templateCID = cid,
                biometricType = bt, enrolledBy = a, enrolledAt = t, updatedAt = t,
                isActive = True\<rparr>),
             subjectExists := (subjectExists s)(sid := True),
             allSubjectIds := allSubjectIds s @ [sid],
             nodeEnrollments := (nodeEnrollments s)(a := nodeEnrollments s a @ [sid]),
             nodes := (nodes s)(a := (nodes s a)\<lparr>enrollmentCount :=
                        enrollmentCount (nodes s a) + 1\<rparr>),
             subjectCount := subjectCount s + 1,
             emitted := emitted s @ [SubjectEnrolled sid a bt t]\<rparr>"
    by (simp only: enrollSubject_success [OF pre] sum.inject)
  have e1: "subjectExists s' = (subjectExists s)(sid := True)"
    and e2: "allSubjectIds s' = allSubjectIds s @ [sid]"
    and e3: "subjectCount s' = subjectCount s + 1"
    and e4: "nodes s' = (nodes s)(a := (nodes s a)\<lparr>enrollmentCount :=
                        enrollmentCount (nodes s a) + 1\<rparr>)"
    by (simp_all add: s')
  note uk = unat_inc [OF pre(6)] and un = unat_inc [OF pre(5)]
  from assms(1) have i1: "\<not> subjectExists s 0"
    and i2: "set (allSubjectIds s) = {i. subjectExists s i}"
    and i3: "distinct (allSubjectIds s)"
    and i4: "unat (subjectCount s) = length (allSubjectIds s)"
    by (simp_all add: ledger_inv_def)
  note i5 = ledger_inv_count [OF assms(1)]
  have g1: "\<not> subjectExists s' 0" using i1 pre(2) by (simp add: e1)
  have g2: "set (allSubjectIds s') = {i. subjectExists s' i}"
    using i2 by (auto simp: e1 e2)
  have g3: "distinct (allSubjectIds s')" using i3 i2 pre(4) by (simp add: e2)
  have g4: "unat (subjectCount s') = length (allSubjectIds s')"
    using i4 uk by (simp add: e2 e3)
  have g5: "\<forall>b. unat (enrollmentCount (nodes s' b)) \<le> length (allSubjectIds s')"
  proof
    fix b
    show "unat (enrollmentCount (nodes s' b)) \<le> length (allSubjectIds s')"
    proof (cases "b = a")
      case True
      with un i5 [of a] show ?thesis by (simp add: e2 e4)
    next
      case False
      with i5 [of b] show ?thesis by (simp add: e2 e4)
    qed
  qed
  show ?thesis unfolding ledger_inv_def
    by (rule conjI [OF g1 conjI [OF g2 conjI [OF g3 conjI [OF g4 g5]]]])
qed

lemma ledger_inv_exec:
  assumes "ledger_inv s" and "exec a t c s = Inr s'"
  shows "ledger_inv s'"
proof (cases c)
  case (EnrollSubject sid ch dl cid bt)
  with assms(2) have "enrollSubject a t sid ch dl cid bt s = Inr s'" by simp
  then show ?thesis by (rule ledger_inv_enrollSubject [OF assms(1)])
next
  case (UpdateSubject sid ch dl cid)
  with assms(2) have "updateSubject a t sid ch dl cid s = Inr s'" by simp
  then show ?thesis by (rule ledger_inv_updateSubject [OF assms(1)])
next
  case (DeactivateSubject sid)
  with assms(2) have "deactivateSubject a t sid s = Inr s'" by simp
  then show ?thesis by (rule ledger_inv_deactivateSubject [OF assms(1)])
next
  case (ReactivateSubject sid)
  with assms(2) have "reactivateSubject a t sid s = Inr s'" by simp
  then show ?thesis by (rule ledger_inv_reactivateSubject [OF assms(1)])
next
  case (LogAuthentication sid ok why)
  with assms(2) have "logAuthentication a t sid ok why s = Inr s'" by simp
  then show ?thesis by (rule ledger_inv_logAuthentication [OF assms(1)])
next
  case (RegisterNode addr nm ec)
  with assms(2) have "registerNode a t addr nm ec s = Inr s'" by simp
  then show ?thesis by (rule ledger_inv_registerNode [OF assms(1)])
next
  case (SetNodeAuthorization addr b)
  with assms(2) have "setNodeAuthorization a t addr b s = Inr s'" by simp
  then show ?thesis by (rule ledger_inv_setNodeAuthorization [OF assms(1)])
next
  case (TransferOwnership newOwner)
  with assms(2) have "transferOwnership a newOwner s = Inr s'" by simp
  then show ?thesis by (rule ledger_inv_transferOwnership [OF assms(1)])
qed

lemma reachable_ledger_inv: "reachable s \<Longrightarrow> ledger_inv s"
proof (induction rule: reachable.induct)
  case (init a t)
  show ?case by (rule ledger_inv_constructor)
next
  case (step s a t c s')
  from step.IH step.hyps(2) show ?case by (rule ledger_inv_exec)
qed

lemma reachable_apply_tx:
  assumes "reachable s"
  shows "reachable (apply_tx x s)"
proof -
  obtain a t c where x: "x = (a, t, c)" by (cases x) auto
  show ?thesis
  proof (cases "exec a t c s")
    case (Inl e)
    with assms show ?thesis by (simp add: x)
  next
    case (Inr s')
    from reachable.step [OF assms Inr] Inr show ?thesis by (simp add: x)
  qed
qed

lemma reachable_run: "reachable s \<Longrightarrow> reachable (run txs s)"
  by (induction txs arbitrary: s) (simp_all add: reachable_apply_tx)

text \<open>Fewer subjects are enrolled than there are non-zero ids other than a fresh one,
  so the counters stay below the largest \<open>uint256\<close>.\<close>

lemma ledger_inv_room:
  assumes "ledger_inv s" and "sid \<noteq> 0" and "\<not> subjectExists s sid"
  shows "length (allSubjectIds s) \<le> 2 ^ 256 - 2"
proof -
  from assms(1) have i1: "\<not> subjectExists s 0"
    and i2: "set (allSubjectIds s) = {i. subjectExists s i}"
    and i3: "distinct (allSubjectIds s)"
    by (simp_all add: ledger_inv_def)
  have sub: "set (allSubjectIds s) \<subseteq> UNIV - {0, sid}"
    using i1 i2 assms(3) by auto
  have "card (UNIV - {0, sid}) = card (UNIV :: bytes32 set) - card {0, sid}"
    by (rule card_Diff_subset) simp_all
  also have "\<dots> = 2 ^ 256 - 2"
    using assms(2) by (simp add: card_word)
  finally have c: "card (UNIV - {0, sid}) = 2 ^ 256 - 2" .
  have "length (allSubjectIds s) = card (set (allSubjectIds s))"
    using i3 by (simp add: distinct_card)
  also have "\<dots> \<le> card (UNIV - {0, sid})"
    by (rule card_mono [OF _ sub]) simp
  finally show ?thesis by (simp only: c)
qed

lemma unat_bound_not_max:
  fixes x :: uint256
  assumes "unat x \<le> 2 ^ 256 - 2"
  shows "x \<noteq> - 1"
proof
  assume "x = - 1"
  then have "unat x = 2 ^ 256 - 1" by (simp add: unsigned_minus_1_eq_mask mask_eq_exp_minus_1)
  with assms show False by simp
qed


lemma ex_state_reachable: "reachable ex_state"
  unfolding ex_state_def by (rule reachable_run [OF reachable.init])

subsection \<open>enrollSubject\<close>

text \<open>
  C1. In every state the registry can reach, a call of \<open>enrollSubject\<close> by an authorized
  enrollment center with a non-zero subject id that is not enrolled yet and a non-zero
  commitment hash succeeds: it stores the subject with the given fields and
  \<open>isActive = true\<close>, \<open>checkSubjectStatus\<close> on the new storage returns (true, true), and
  the subject counter and the caller's \<open>enrollmentCount\<close> are each larger by exactly 1
  (the checked increments do not overflow).
\<close>

theorem enrollSubject_succeeds:
  assumes "reachable s" and "onlyEnrollmentCenter c s" and "sid \<noteq> 0" and "ch \<noteq> 0"
    and "\<not> subjectExists s sid"
  shows "\<exists>s'. enrollSubject c t sid ch dl cid bt s = Inr s'
           \<and> subjects s' sid =
                \<lparr>subjectId = sid, commitmentHash = ch, delta = dl, templateCID = cid,
                 biometricType = bt, enrolledBy = c, enrolledAt = t, updatedAt = t,
                 isActive = True\<rparr>
           \<and> checkSubjectStatus sid s' = (True, True)
           \<and> unat (totalSubjects s') = unat (totalSubjects s) + 1
           \<and> unat (enrollmentCount (nodes s' c)) = unat (enrollmentCount (nodes s c)) + 1"
proof -
  have inv: "ledger_inv s" by (rule reachable_ledger_inv [OF assms(1)])
  note room = ledger_inv_room [OF inv assms(3) assms(5)]
  from inv have "unat (subjectCount s) = length (allSubjectIds s)"
    by (simp add: ledger_inv_def)
  with room have "unat (subjectCount s) \<le> 2 ^ 256 - 2" by simp
  then have k: "subjectCount s \<noteq> - 1" by (rule unat_bound_not_max)
  from ledger_inv_count [OF inv, of c] room
  have "unat (enrollmentCount (nodes s c)) \<le> 2 ^ 256 - 2" by (rule order_trans)
  then have n: "enrollmentCount (nodes s c) \<noteq> - 1" by (rule unat_bound_not_max)
  let ?s' = "s\<lparr>subjects := (subjects s)(sid :=
               \<lparr>subjectId = sid, commitmentHash = ch, delta = dl, templateCID = cid,
                biometricType = bt, enrolledBy = c, enrolledAt = t, updatedAt = t,
                isActive = True\<rparr>),
             subjectExists := (subjectExists s)(sid := True),
             allSubjectIds := allSubjectIds s @ [sid],
             nodeEnrollments := (nodeEnrollments s)(c := nodeEnrollments s c @ [sid]),
             nodes := (nodes s)(c := (nodes s c)\<lparr>enrollmentCount :=
                        enrollmentCount (nodes s c) + 1\<rparr>),
             subjectCount := subjectCount s + 1,
             emitted := emitted s @ [SubjectEnrolled sid c bt t]\<rparr>"
  have r: "enrollSubject c t sid ch dl cid bt s = Inr ?s'"
    by (rule enrollSubject_success [OF assms(2) assms(3) assms(4) assms(5) n k])
  have g1: "subjects ?s' sid =
                \<lparr>subjectId = sid, commitmentHash = ch, delta = dl, templateCID = cid,
                 biometricType = bt, enrolledBy = c, enrolledAt = t, updatedAt = t,
                 isActive = True\<rparr>"
    by simp
  have g2: "checkSubjectStatus sid ?s' = (True, True)"
    by (simp add: checkSubjectStatus_def)
  have g3: "unat (totalSubjects ?s') = unat (totalSubjects s) + 1"
    using unat_inc [OF k] by (simp add: totalSubjects_def)
  have g4: "unat (enrollmentCount (nodes ?s' c)) = unat (enrollmentCount (nodes s c)) + 1"
    using unat_inc [OF n] by simp
  from r g1 g2 g3 g4 show ?thesis by blast
qed

theorem enrollSubject_succeeds_witness:
  "\<exists>s'. enrollSubject 3 200 8 5 [4] ''Qz'' IRIS ex_state = Inr s'
     \<and> isActive (subjects s' 8)
     \<and> checkSubjectStatus 8 s' = (True, True)
     \<and> unat (totalSubjects s') = 2
     \<and> unat (enrollmentCount (nodes s' 3)) = 1"
proof -
  have a: "onlyEnrollmentCenter 3 ex_state" and b: "(8 :: bytes32) \<noteq> 0"
    and c: "(5 :: bytes32) \<noteq> 0" and d: "\<not> subjectExists ex_state 8"
    and e: "unat (totalSubjects ex_state) = 1"
    and f: "unat (enrollmentCount (nodes ex_state 3)) = 0"
    by (simp_all add: ex_state_def registry_defs totalSubjects_def)
  from enrollSubject_succeeds [OF ex_state_reachable a b c d, of 200 "[4]" "''Qz''" IRIS]
  obtain s' where r: "enrollSubject 3 200 8 5 [4] ''Qz'' IRIS ex_state = Inr s'"
    and r1: "subjects s' 8 =
                \<lparr>subjectId = 8, commitmentHash = 5, delta = [4], templateCID = ''Qz'',
                 biometricType = IRIS, enrolledBy = 3, enrolledAt = 200, updatedAt = 200,
                 isActive = True\<rparr>"
    and r2: "checkSubjectStatus 8 s' = (True, True)"
    and r3: "unat (totalSubjects s') = unat (totalSubjects ex_state) + 1"
    and r4: "unat (enrollmentCount (nodes s' 3)) = unat (enrollmentCount (nodes ex_state 3)) + 1"
    by blast
  have t1: "isActive (subjects s' 8)" by (simp add: r1)
  have t3: "unat (totalSubjects s') = 2" using r3 e by simp
  have t4: "unat (enrollmentCount (nodes s' 3)) = 1" using r4 f by simp
  from r t1 r2 t3 t4 show ?thesis by blast
qed


subsection \<open>Enrolled subjects stay enrolled\<close>

lemma exec_subjectExists:
  assumes "exec a t c s = Inr s'" and "subjectExists s sid"
  shows "subjectExists s' sid"
proof (cases c)
  case (EnrollSubject sid' ch dl cid bt)
  with assms(1) have e: "enrollSubject a t sid' ch dl cid bt s = Inr s'" by simp
  from e have "s' = s\<lparr>subjects := (subjects s)(sid' :=
               \<lparr>subjectId = sid', commitmentHash = ch, delta = dl, templateCID = cid,
                biometricType = bt, enrolledBy = a, enrolledAt = t, updatedAt = t,
                isActive = True\<rparr>),
             subjectExists := (subjectExists s)(sid' := True),
             allSubjectIds := allSubjectIds s @ [sid'],
             nodeEnrollments := (nodeEnrollments s)(a := nodeEnrollments s a @ [sid']),
             nodes := (nodes s)(a := (nodes s a)\<lparr>enrollmentCount :=
                        enrollmentCount (nodes s a) + 1\<rparr>),
             subjectCount := subjectCount s + 1,
             emitted := emitted s @ [SubjectEnrolled sid' a bt t]\<rparr>"
    by (simp only: enrollSubject_success [OF enrollSubject_pre [OF e]] sum.inject)
  then have "subjectExists s' = (subjectExists s)(sid' := True)" by simp
  with assms(2) show ?thesis by simp
next
  case (UpdateSubject sid' ch dl cid)
  with assms show ?thesis by (auto simp: updateSubject_def split: if_splits)
next
  case (DeactivateSubject sid')
  with assms show ?thesis by (auto simp: deactivateSubject_def split: if_splits)
next
  case (ReactivateSubject sid')
  with assms show ?thesis by (auto simp: reactivateSubject_def split: if_splits)
next
  case (LogAuthentication sid' ok why)
  with assms show ?thesis
    by (auto simp: logAuthentication_def Let_def split: if_splits sum.splits)
next
  case (RegisterNode addr nm ec)
  with assms show ?thesis
    by (auto simp: registerNode_def Let_def split: if_splits sum.splits)
next
  case (SetNodeAuthorization addr b)
  with assms show ?thesis by (auto simp: setNodeAuthorization_def split: if_splits)
next
  case (TransferOwnership newOwner)
  with assms show ?thesis by (auto simp: transferOwnership_def Let_def split: if_splits)
qed

lemma apply_tx_subjectExists:
  assumes "subjectExists s sid"
  shows "subjectExists (apply_tx x s) sid"
proof -
  obtain a t c where x: "x = (a, t, c)" by (cases x) auto
  show ?thesis
  proof (cases "exec a t c s")
    case (Inl e)
    with assms show ?thesis by (simp add: x)
  next
    case (Inr s')
    from exec_subjectExists [OF Inr assms] Inr show ?thesis by (simp add: x)
  qed
qed

lemma run_subjectExists: "subjectExists s sid \<Longrightarrow> subjectExists (run txs s) sid"
  by (induction txs arbitrary: s) (simp_all add: apply_tx_subjectExists)

text \<open>
  C2, as stated, at a zero commitment hash: subject 7 is enrolled and the owner, an
  authorized enrollment center, re-invokes \<open>enrollSubject\<close> for it with commitment hash 0.
  The hash is checked before the duplicate, so the call reverts with "invalid commitment
  hash" and not with "subject already exists".
\<close>

theorem enrollSubject_duplicate_counterexample:
  "subjectExists ex_state 7 \<and> onlyEnrollmentCenter 1 ex_state
   \<and> enrollSubject 1 200 7 0 [1, 2] ''Qm'' FACIAL ex_state = Inl INVALID_COMMITMENT_HASH
   \<and> enrollSubject 1 200 7 0 [1, 2] ''Qm'' FACIAL ex_state \<noteq> Inl SUBJECT_EXISTS"
  by (simp add: ex_state_def registry_defs)

text \<open>
  C2, amended. For a subject id present in the ledger of a registry in a reachable state,
  after any further sequence of transactions (updates and deactivations among them)
  \<open>enrollSubject\<close> with that id fails whatever the other arguments are: with "subject
  already exists" when the caller is an authorized enrollment center and the commitment
  hash is not zero, with "invalid commitment hash" when the caller is one and the hash is
  zero, and with "not an enrollment center" for any other caller.
\<close>

theorem enrollSubject_duplicate_rejected:
  assumes "reachable s" and "subjectExists s sid"
  shows "isl (enrollSubject c t sid ch dl cid bt (run txs s))
       \<and> (onlyEnrollmentCenter c (run txs s) \<and> ch \<noteq> 0 \<longrightarrow>
            enrollSubject c t sid ch dl cid bt (run txs s) = Inl SUBJECT_EXISTS)
       \<and> (onlyEnrollmentCenter c (run txs s) \<and> ch = 0 \<longrightarrow>
            enrollSubject c t sid ch dl cid bt (run txs s) = Inl INVALID_COMMITMENT_HASH)
       \<and> (\<not> onlyEnrollmentCenter c (run txs s) \<longrightarrow>
            enrollSubject c t sid ch dl cid bt (run txs s) = Inl NOT_ENROLLMENT_CENTER)"
proof -
  let ?s = "run txs s"
  have ex: "subjectExists ?s sid" by (rule run_subjectExists [OF assms(2)])
  have "ledger_inv ?s" by (rule reachable_ledger_inv [OF reachable_run [OF assms(1)]])
  then have "\<not> subjectExists ?s 0" by (simp add: ledger_inv_def)
  with ex have nz: "sid \<noteq> 0" by auto
  have g2: "onlyEnrollmentCenter c ?s \<and> ch \<noteq> 0 \<longrightarrow>
            enrollSubject c t sid ch dl cid bt ?s = Inl SUBJECT_EXISTS"
    using ex nz by (simp add: enrollSubject_def)
  have g3: "onlyEnrollmentCenter c ?s \<and> ch = 0 \<longrightarrow>
            enrollSubject c t sid ch dl cid bt ?s = Inl INVALID_COMMITMENT_HASH"
    using nz by (simp add: enrollSubject_def)
  have g4: "\<not> onlyEnrollmentCenter c ?s \<longrightarrow>
            enrollSubject c t sid ch dl cid bt ?s = Inl NOT_ENROLLMENT_CENTER"
    by (simp add: enrollSubject_def)
  have g1: "isl (enrollSubject c t sid ch dl cid bt ?s)"
    using g2 g3 g4 by (cases "onlyEnrollmentCenter c ?s"; cases "ch = 0") simp_all
  from g1 g2 g3 g4 show ?thesis by blast
qed

theorem enrollSubject_duplicate_rejected_witness:
  "subjectExists ex_state 7
   \<and> enrollSubject 1 200 7 9 [1, 2] ''Qm'' FACIAL ex_state_off = Inl SUBJECT_EXISTS
   \<and> enrollSubject 1 200 7 0 [] [] IRIS ex_state_off = Inl INVALID_COMMITMENT_HASH
   \<and> enrollSubject 3 200 7 9 [1, 2] ''Qm'' FACIAL ex_state_off = Inl NOT_ENROLLMENT_CENTER"
proof -
  have a: "subjectExists ex_state 7"
    by (simp add: ex_state_def registry_defs)
  have b: "onlyEnrollmentCenter 1 ex_state_off" and c: "\<not> onlyEnrollmentCenter 3 ex_state_off"
    by (simp_all add: ex_state_off_def ex_state_def registry_defs)
  note r = enrollSubject_duplicate_rejected [OF ex_state_reachable a,
      where txs = "[(3, 103, DeactivateSubject 7), (1, 104, SetNodeAuthorization 3 False)]",
      folded ex_state_off_def]
  have t1: "enrollSubject 1 200 7 9 [1, 2] ''Qm'' FACIAL ex_state_off = Inl SUBJECT_EXISTS"
    using r [where c = 1 and ch = 9 and t = 200 and dl = "[1, 2]" and cid = "''Qm''"
        and bt = FACIAL] b by simp
  have t2: "enrollSubject 1 200 7 0 [] [] IRIS ex_state_off = Inl INVALID_COMMITMENT_HASH"
    using r [where c = 1 and ch = 0 and t = 200 and dl = "[]" and cid = "[]" and bt = IRIS] b by simp
  have t3: "enrollSubject 3 200 7 9 [1, 2] ''Qm'' FACIAL ex_state_off = Inl NOT_ENROLLMENT_CENTER"
    using r [where c = 3 and ch = 9 and t = 200 and dl = "[1, 2]" and cid = "''Qm''"
        and bt = FACIAL] c by simp
  from a t1 t2 t3 show ?thesis by blast
qed

end
